theory Spec2Isabelle
  imports Main
begin

section \<open>Go library functions used by the programs\<close>

text \<open>
  Go strings are byte sequences (UTF-8 by convention); they are modelled as \<open>string\<close>,
  a list of 8-bit characters.
\<close>

subsection \<open>strings.TrimSpace, strings.Split, strings.Contains\<close>

text \<open>
  The UTF-8 encodings of the code points for which Go's \<open>unicode.IsSpace\<close> holds:
  tab, LF, VT, FF, CR, space, U+0085, U+00A0, U+1680, U+2000 to U+200A, U+2028, U+2029,
  U+202F, U+205F and U+3000.
\<close>

definition utf8_spaces :: "string list" where
  "utf8_spaces =
     [[CHR 0x09], [CHR 0x0A], [CHR 0x0B], [CHR 0x0C], [CHR 0x0D], [CHR 0x20],
      [CHR 0xC2, CHR 0x85], [CHR 0xC2, CHR 0xA0],
      [CHR 0xE1, CHR 0x9A, CHR 0x80],
      [CHR 0xE2, CHR 0x80, CHR 0x80], [CHR 0xE2, CHR 0x80, CHR 0x81],
      [CHR 0xE2, CHR 0x80, CHR 0x82], [CHR 0xE2, CHR 0x80, CHR 0x83],
      [CHR 0xE2, CHR 0x80, CHR 0x84], [CHR 0xE2, CHR 0x80, CHR 0x85],
      [CHR 0xE2, CHR 0x80, CHR 0x86], [CHR 0xE2, CHR 0x80, CHR 0x87],
      [CHR 0xE2, CHR 0x80, CHR 0x88], [CHR 0xE2, CHR 0x80, CHR 0x89],
      [CHR 0xE2, CHR 0x80, CHR 0x8A],
      [CHR 0xE2, CHR 0x80, CHR 0xA8], [CHR 0xE2, CHR 0x80, CHR 0xA9],
      [CHR 0xE2, CHR 0x80, CHR 0xAF], [CHR 0xE2, CHR 0x81, CHR 0x9F],
      [CHR 0xE3, CHR 0x80, CHR 0x80]]"

text \<open>\<open>strip ps s\<close> removes from the front of \<open>s\<close> every leading occurrence of a pattern of \<open>ps\<close>.\<close>

function strip :: "string list \<Rightarrow> string \<Rightarrow> string" where
  "strip ps s =
     (case List.find (\<lambda>e. e \<noteq> [] \<and> take (length e) s = e) ps of
        None \<Rightarrow> s
      | Some e \<Rightarrow> strip ps (drop (length e) s))"
  by pat_completeness auto
termination
proof (relation "measure (\<lambda>(ps, s). length s)")
  show "wf (measure (\<lambda>(ps, s). length s))" by simp
next
  fix ps :: "string list" and s e :: string
  assume "List.find (\<lambda>e. e \<noteq> [] \<and> take (length e) s = e) ps = Some e"
  then have "e \<noteq> []" and "take (length e) s = e"
    by (auto simp: find_Some_iff)
  then have "s \<noteq> []" by auto
  with \<open>e \<noteq> []\<close> show "((ps, drop (length e) s), (ps, s)) \<in> measure (\<lambda>(ps, s). length s)"
    by simp
qed

text \<open>
  \<open>strings.TrimSpace\<close>: leading white-space runes are removed, then trailing ones. A byte
  sequence that is not the encoding of a white-space rune stops the trimming on its side.
\<close>

definition TrimSpace :: "string \<Rightarrow> string" where
  "TrimSpace s = rev (strip (map rev utf8_spaces) (rev (strip utf8_spaces s)))"

text \<open>\<open>strings.Split(s, sep)\<close> for a separator of one byte: one piece more than separators.\<close>

fun Split :: "string \<Rightarrow> char \<Rightarrow> string list" where
  "Split [] sep = [[]]"
| "Split (c # cs) sep =
     (if c = sep then [] # Split cs sep
      else (c # hd (Split cs sep)) # tl (Split cs sep))"

text \<open>\<open>strings.Contains(s, substr)\<close>.\<close>

fun Contains :: "string \<Rightarrow> string \<Rightarrow> bool" where
  "Contains [] substr = (substr = [])"
| "Contains (c # cs) substr = (take (length substr) (c # cs) = substr \<or> Contains cs substr)"

subsection \<open>base64.StdEncoding\<close>

definition encodeStd :: string where
  "encodeStd = ''ABCDEFGHIJKLMNOPQRSTUVWXYZabcdefghijklmnopqrstuvwxyz0123456789+/''"

fun EncodeToString :: "string \<Rightarrow> string" where
  "EncodeToString [] = []"
| "EncodeToString [a] =
     (let n = (of_char a :: nat) * 16
      in [encodeStd ! (n div 64), encodeStd ! (n mod 64), CHR ''='', CHR ''=''])"
| "EncodeToString [a, b] =
     (let n = ((of_char a :: nat) * 256 + of_char b) * 4
      in [encodeStd ! (n div 4096), encodeStd ! (n div 64 mod 64), encodeStd ! (n mod 64),
          CHR ''=''])"
| "EncodeToString (a # b # c # rest) =
     (let n = (of_char a :: nat) * 65536 + of_char b * 256 + of_char c
      in [encodeStd ! (n div 262144), encodeStd ! (n div 4096 mod 64),
          encodeStd ! (n div 64 mod 64), encodeStd ! (n mod 64)] @ EncodeToString rest)"

text \<open>The character with a given byte value.\<close>

definition byte :: "nat \<Rightarrow> char" where
  "byte n = Char (odd n) (odd (n div 2)) (odd (n div 4)) (odd (n div 8))
                 (odd (n div 16)) (odd (n div 32)) (odd (n div 64)) (odd (n div 128))"

fun position :: "char list \<Rightarrow> char \<Rightarrow> nat option" where
  "position [] c = None"
| "position (x # xs) c = (if x = c then Some 0 else map_option Suc (position xs c))"

text \<open>
  \<open>DecodeString\<close>: the inverse direction, as the API server applies it to the string
  values of a Secret's \<open>data\<close> member; \<open>None\<close> on input that is not padded base64.
\<close>

fun DecodeString :: "string \<Rightarrow> string option" where
  "DecodeString [] = Some []"
| "DecodeString (c0 # c1 # c2 # c3 # rest) =
     (case (position encodeStd c0, position encodeStd c1) of
        (Some i0, Some i1) \<Rightarrow>
          (if c2 = CHR ''='' \<and> c3 = CHR ''='' \<and> rest = [] then
             (if i1 mod 16 = 0 then Some [byte ((i0 * 64 + i1) div 16)] else None)
           else
             (case position encodeStd c2 of
                None \<Rightarrow> None
              | Some i2 \<Rightarrow>
                 (if c3 = CHR ''='' \<and> rest = [] then
                    (if i2 mod 4 = 0 then
                       (let n = ((i0 * 64 + i1) * 64 + i2) div 4
                        in Some [byte (n div 256), byte (n mod 256)])
                     else None)
                  else
                    (case (position encodeStd c3, DecodeString rest) of
                       (Some i3, Some tail) \<Rightarrow>
                         (let n = ((i0 * 64 + i1) * 64 + i2) * 64 + i3
                          in Some (byte (n div 65536) # byte (n div 256 mod 256)
                                   # byte (n mod 256) # tail))
                     | _ \<Rightarrow> None))))
      | _ \<Rightarrow> None)"
| "DecodeString _ = None"

section \<open>Data\<close>

subsection \<open>Errors\<close>

text \<open>
  An error produced outside the programs (operating system, HTTP transport, JSON decoder,
  Kubernetes client): its message, and whether \<open>k8serrors.IsNotFound\<close> holds of it.
\<close>

datatype ext_error = ExtError (NotFoundReason: bool) (Message: string)

text \<open>
  Errors of the programs: an external error, \<open>errors.New\<close>, and \<open>fmt.Errorf\<close> with its
  format string and arguments (\<open>%w\<close> and \<open>%v\<close> arguments are errors). \<open>Panic\<close> stands for
  a run-time panic.
\<close>

datatype error =
    Ext ext_error
  | New string
  | Errorf string "arg list"
  | Panic string
and arg =
    AInt int
  | AStr string
  | AErr error
  | AErrs "error list"
  | ANil

subsection \<open>HTTP\<close>

type_synonym "values" = "(string \<times> string list) list"

text \<open>
  A response body is a reader: unread, it yields its content or a read error, once;
  after \<open>Close\<close> every read fails.
\<close>

datatype reader = Unread "ext_error + string" | Closed

record Request =
  Method :: string
  URL :: string
  ContentType :: string
  Form :: "values"

record Response =
  StatusCode :: int
  Body :: reader
  CloseErr :: "ext_error option"

record TokenResponse =
  AccessToken :: string

subsection \<open>Kubernetes objects\<close>

record ObjectMeta =
  Name :: string
  Namespace :: string
  Labels :: "string \<rightharpoonup> string"

record Secret =
  ObjectMeta :: ObjectMeta
  Type :: string
  Data :: "string \<rightharpoonup> string"
  StringData :: "string \<rightharpoonup> string"

text \<open>JSON values, as far as the patch payload needs them.\<close>

datatype json = JNull | JString string | JObject "(string \<times> json) list"

subsection \<open>The environment\<close>

text \<open>
  Everything the programs observe or change outside themselves is visible as an event.
  \<open>EvSleep d\<close> is \<open>time.Sleep(d)\<close> with \<open>d\<close> in nanoseconds.
\<close>

datatype event =
    EvDo Request
  | EvSleep int
  | EvList
  | EvGet string string
  | EvCreate string Secret
  | EvUpdate string Secret
  | EvPatch string string json

text \<open>
  The environment is a record of oracles over a state \<open>'w\<close> of the outside world: the
  process environment, the file system, the HTTP transport, the JSON decoder for the token
  response, the Kubernetes client configuration and the API server, and the state of the
  contexts (cancelled by a signal; ended by the deadline of the latest operation).
\<close>

record 'w env =
  environ :: "string \<rightharpoonup> string"
  ReadFile :: "string \<Rightarrow> ext_error + string"
  NewRequest :: "string \<Rightarrow> ext_error option"
  http_Do :: "'w \<Rightarrow> Request \<Rightarrow> (ext_error + Response) \<times> 'w"
  json_Decode :: "string \<Rightarrow> ext_error + TokenResponse"
  InClusterConfig :: "ext_error option"
  BuildConfigFromFlags :: "ext_error option"
  NewForConfig :: "ext_error option"
  k8s_List :: "'w \<Rightarrow> (ext_error + string list) \<times> 'w"
  k8s_Get :: "'w \<Rightarrow> string \<Rightarrow> string \<Rightarrow> (ext_error + Secret) \<times> 'w"
  k8s_Create :: "'w \<Rightarrow> string \<Rightarrow> Secret \<Rightarrow> ext_error option \<times> 'w"
  k8s_Update :: "'w \<Rightarrow> string \<Rightarrow> Secret \<Rightarrow> ext_error option \<times> 'w"
  k8s_Patch :: "'w \<Rightarrow> string \<Rightarrow> string \<Rightarrow> json \<Rightarrow> ext_error option \<times> 'w"
  ctx_Done :: "'w \<Rightarrow> bool"
  DeadlineExceeded :: "'w \<Rightarrow> bool"

record 'w world =
  ext :: 'w
  trace :: "event list"

definition Getenv :: "'w env \<Rightarrow> string \<Rightarrow> string" where
  "Getenv E key = (case environ E key of None \<Rightarrow> [] | Some v \<Rightarrow> v)"

definition Sleep :: "int \<Rightarrow> 'w world \<Rightarrow> 'w world" where
  "Sleep d w = w\<lparr>trace := trace w @ [EvSleep d]\<rparr>"

definition client_Do :: "'w env \<Rightarrow> Request \<Rightarrow> 'w world \<Rightarrow> (ext_error + Response) \<times> 'w world" where
  "client_Do E req w =
     (case http_Do E (ext w) req of
        (r, x) \<Rightarrow> (r, \<lparr>ext = x, trace = trace w @ [EvDo req]\<rparr>))"

text \<open>\<open>PostForm\<close> posts the form with the content type of URL-encoded forms.\<close>

definition PostForm :: "'w env \<Rightarrow> string \<Rightarrow> values \<Rightarrow> 'w world \<Rightarrow> (ext_error + Response) \<times> 'w world" where
  "PostForm E url data w =
     client_Do E \<lparr>Method = ''POST'', URL = url,
                  ContentType = ''application/x-www-form-urlencoded'', Form = data\<rparr> w"

definition api_List :: "'w env \<Rightarrow> 'w world \<Rightarrow> (ext_error + string list) \<times> 'w world" where
  "api_List E w =
     (case k8s_List E (ext w) of
        (r, x) \<Rightarrow> (r, \<lparr>ext = x, trace = trace w @ [EvList]\<rparr>))"

definition api_Get :: "'w env \<Rightarrow> string \<Rightarrow> string \<Rightarrow> 'w world \<Rightarrow> (ext_error + Secret) \<times> 'w world" where
  "api_Get E namespace name w =
     (case k8s_Get E (ext w) namespace name of
        (r, x) \<Rightarrow> (r, \<lparr>ext = x, trace = trace w @ [EvGet namespace name]\<rparr>))"

definition api_Create :: "'w env \<Rightarrow> string \<Rightarrow> Secret \<Rightarrow> 'w world \<Rightarrow> ext_error option \<times> 'w world" where
  "api_Create E namespace secret w =
     (case k8s_Create E (ext w) namespace secret of
        (r, x) \<Rightarrow> (r, \<lparr>ext = x, trace = trace w @ [EvCreate namespace secret]\<rparr>))"

definition api_Update :: "'w env \<Rightarrow> string \<Rightarrow> Secret \<Rightarrow> 'w world \<Rightarrow> ext_error option \<times> 'w world" where
  "api_Update E namespace secret w =
     (case k8s_Update E (ext w) namespace secret of
        (r, x) \<Rightarrow> (r, \<lparr>ext = x, trace = trace w @ [EvUpdate namespace secret]\<rparr>))"

definition api_Patch :: "'w env \<Rightarrow> string \<Rightarrow> string \<Rightarrow> json \<Rightarrow> 'w world \<Rightarrow> ext_error option \<times> 'w world" where
  "api_Patch E namespace name patch w =
     (case k8s_Patch E (ext w) namespace name patch of
        (r, x) \<Rightarrow> (r, \<lparr>ext = x, trace = trace w @ [EvPatch namespace name patch]\<rparr>))"

text \<open>Reading a Go map at a key: the empty string when the key is absent.\<close>

definition index :: "(string \<rightharpoonup> string) \<Rightarrow> string \<Rightarrow> string" where
  "index m key = (case m key of None \<Rightarrow> [] | Some v \<Rightarrow> v)"

definition StatusOK :: int where
  "StatusOK = 200"

definition SecretTypeOpaque :: string where
  "SecretTypeOpaque = ''Opaque''"

text \<open>
  Decoding the token response from a body: a body that cannot be read fails the decoder.
\<close>

definition Decode :: "'w env \<Rightarrow> reader \<Rightarrow> ext_error + TokenResponse" where
  "Decode E body =
     (case body of
        Unread (Inr data) \<Rightarrow> json_Decode E data
      | Unread (Inl err) \<Rightarrow> Inl err
      | Closed \<Rightarrow> Inl (ExtError False ''http: read on closed response body''))"

section \<open>The cluster-wide program with retries (unnamed/part_003, first file)\<close>

definition maxRetries :: nat where
  "maxRetries = 3"

text \<open>\<open>time.Second\<close> in nanoseconds, the unit of \<open>time.Duration\<close>.\<close>

definition Second :: int where
  "Second = 1000000000"

definition baseRetryDelay :: int where
  "baseRetryDelay = 2 * Second"

definition secretName :: string where
  "secretName = ''oidc-jwt''"

definition appName :: string where
  "appName = ''oidc-secret-manager''"

definition readFile :: "'w env \<Rightarrow> string \<Rightarrow> error + string" where
  "readFile E path =
     (case ReadFile E path of
        Inl err \<Rightarrow> Inl (Errorf ''failed to read file: %w'' [AErr (Ext err)])
      | Inr data \<Rightarrow> Inr (TrimSpace data))"

text \<open>
  \<open>readResponseBody\<close> reads the whole body and closes it; the result is the data and the
  error, and the reader as it is left.
\<close>

definition readResponseBody :: "reader \<Rightarrow> (string \<times> error option) \<times> reader" where
  "readResponseBody body =
     (case body of
        Unread (Inr data) \<Rightarrow> ((data, None), Closed)
      | Unread (Inl err) \<Rightarrow>
          (([], Some (Errorf ''failed to read response body: %w'' [AErr (Ext err)])), Closed)
      | Closed \<Rightarrow>
          (([], Some (Errorf ''failed to read response body: %w''
                        [AErr (Ext (ExtError False ''http: read on closed response body''))])),
           Closed))"

text \<open>
  The retry loop of \<open>getOIDCToken\<close>, from iteration \<open>i\<close>, with the variables \<open>resp\<close> and
  \<open>lastError\<close> as the loop state. A response with status 200 leaves the loop (\<open>break\<close>) with
  its body unread; on another status the body is read for the log and closed.
\<close>

function getOIDCToken_loop ::
  "'w env \<Rightarrow> values \<Rightarrow> nat \<Rightarrow> Response option \<times> ext_error option \<Rightarrow> 'w world
     \<Rightarrow> (Response option \<times> ext_error option) \<times> 'w world" where
  "getOIDCToken_loop E vals i st w =
     (if i < maxRetries then
        (case PostForm E (Getenv E ''TOKEN_ENDPOINT_URL'') vals w of
           (Inr resp, w1) \<Rightarrow>
             if StatusCode resp = StatusOK then ((Some resp, None), w1)
             else
               (let resp' = resp\<lparr>Body := snd (readResponseBody (Body resp))\<rparr>;
                    w2 = (if i < maxRetries - 1
                          then Sleep (int (i + 1) * baseRetryDelay) w1 else w1)
                in getOIDCToken_loop E vals (i + 1) (Some resp', None) w2)
         | (Inl err, w1) \<Rightarrow>
               (let w2 = (if i < maxRetries - 1
                          then Sleep (int (i + 1) * baseRetryDelay) w1 else w1)
                in getOIDCToken_loop E vals (i + 1) (None, Some err) w2))
      else (st, w))"
  by pat_completeness auto
termination
  by (relation "measure (\<lambda>(E, vals, i, st, w). maxRetries - i)") auto

declare getOIDCToken_loop.simps [simp del]

definition getOIDCToken :: "'w env \<Rightarrow> 'w world \<Rightarrow> (error + string) \<times> 'w world" where
  "getOIDCToken E w =
     (case readFile E (Getenv E ''CLIENT_SECRET_FILE'') of
        Inl err \<Rightarrow> (Inl (Errorf ''failed to read client secret: %w'' [AErr err]), w)
      | Inr clientSecret \<Rightarrow>
         (let vals = [(''client_id'', [Getenv E ''CLIENT_ID'']),
                      (''client_secret'', [clientSecret]),
                      (''grant_type'', [''client_credentials''])];
              vals = (if Getenv E ''SCOPE'' \<noteq> [] then vals @ [(''scope'', [Getenv E ''SCOPE''])]
                      else vals)
          in case getOIDCToken_loop E vals 0 (None, None) w of
               ((_, Some lastError), w') \<Rightarrow>
                 (Inl (Errorf ''token request failed after %d attempts: %w''
                         [AInt (int maxRetries), AErr (Ext lastError)]), w')
             | ((None, None), w') \<Rightarrow> (Inl (Panic ''nil pointer dereference''), w')
             | ((Some resp, None), w') \<Rightarrow>
                 if StatusCode resp \<noteq> StatusOK then
                   (Inl (Errorf ''token endpoint returned %d: %s''
                           [AInt (StatusCode resp),
                            AStr (fst (fst (readResponseBody (Body resp))))]), w')
                 else
                   (case Decode E (Body resp) of
                      Inl err \<Rightarrow>
                        (Inl (Errorf ''failed to decode token response: %w'' [AErr (Ext err)]),
                         w')
                    | Inr tokenResp \<Rightarrow>
                        if AccessToken tokenResp = []
                        then (Inl (New ''empty access token in response''), w')
                        else (Inr (AccessToken tokenResp), w'))))"

definition listNamespaces :: "'w env \<Rightarrow> 'w world \<Rightarrow> (error + string list) \<times> 'w world" where
  "listNamespaces E w =
     (case api_List E w of
        (Inl err, w1) \<Rightarrow> (Inl (Errorf ''failed to list namespaces: %w'' [AErr (Ext err)]), w1)
      | (Inr namespaces, w1) \<Rightarrow> (Inr namespaces, w1))"

definition manageNamespaceSecret ::
  "'w env \<Rightarrow> string \<Rightarrow> string \<Rightarrow> 'w world \<Rightarrow> error option \<times> 'w world" where
  "manageNamespaceSecret E token namespace w =
     (let secret =
            \<lparr>ObjectMeta =
               \<lparr>Name = secretName, Namespace = [],
                Labels = [''app.kubernetes.io/managed-by'' \<mapsto> appName,
                          ''app.kubernetes.io/created-by'' \<mapsto> appName]\<rparr>,
             Type = SecretTypeOpaque,
             Data = Map.empty,
             StringData = [''token'' \<mapsto> token]\<rparr>
      in case api_Get E namespace secretName w of
           (Inl err, w1) \<Rightarrow>
             if NotFoundReason err then
               (case api_Create E namespace secret w1 of
                  (err', w2) \<Rightarrow> (map_option Ext err', w2))
             else (Some (Ext err), w1)
         | (Inr existing, w1) \<Rightarrow>
             if index (StringData existing) ''token'' = token then (None, w1)
             else
               (case api_Update E namespace secret w1 of
                  (err', w2) \<Rightarrow> (map_option Ext err', w2)))"

text \<open>The loop of \<open>withRetries\<close>, from iteration \<open>i\<close>, with \<open>lastError\<close> as the loop state.\<close>

function withRetries_loop ::
  "('w world \<Rightarrow> error option \<times> 'w world) \<Rightarrow> nat \<Rightarrow> error option \<Rightarrow> 'w world
     \<Rightarrow> error option \<times> 'w world" where
  "withRetries_loop fn i lastError w =
     (if i < maxRetries then
        (case fn w of
           (None, w1) \<Rightarrow> (None, w1)
         | (Some err, w1) \<Rightarrow>
             (let w2 = (if i < maxRetries - 1
                        then Sleep (int (i + 1) * baseRetryDelay) w1 else w1)
              in withRetries_loop fn (i + 1) (Some err) w2))
      else
        (Some (Errorf ''failed after %d attempts: %w''
                 [AInt (int maxRetries), (case lastError of None \<Rightarrow> ANil | Some e \<Rightarrow> AErr e)]),
         w))"
  by pat_completeness auto
termination
  by (relation "measure (\<lambda>(fn, i, lastError, w). maxRetries - i)") auto

declare withRetries_loop.simps [simp del]

definition withRetries ::
  "('w world \<Rightarrow> error option \<times> 'w world) \<Rightarrow> 'w world \<Rightarrow> error option \<times> 'w world" where
  "withRetries fn w = withRetries_loop fn 0 None w"

definition getK8sConfig :: "'w env \<Rightarrow> ext_error option" where
  "getK8sConfig E =
     (case InClusterConfig E of
        None \<Rightarrow> None
      | Some _ \<Rightarrow> BuildConfigFromFlags E)"

text \<open>
  The loop of \<open>manageSecretsClusterWide\<close> over the namespaces, with \<open>errorList\<close> and
  \<open>successCount\<close> as the loop state.
\<close>

fun manageSecretsClusterWide_loop ::
  "'w env \<Rightarrow> string \<Rightarrow> string list \<Rightarrow> error list \<times> nat \<Rightarrow> 'w world
     \<Rightarrow> (error list \<times> nat) \<times> 'w world" where
  "manageSecretsClusterWide_loop E token [] acc w = (acc, w)"
| "manageSecretsClusterWide_loop E token (ns # rest) (errorList, successCount) w =
     (case withRetries (manageNamespaceSecret E token ns) w of
        (Some err, w1) \<Rightarrow>
          manageSecretsClusterWide_loop E token rest
            (errorList @ [Errorf ''namespace %s: %w'' [AStr ns, AErr err]], successCount) w1
      | (None, w1) \<Rightarrow>
          manageSecretsClusterWide_loop E token rest (errorList, successCount + 1) w1)"

definition manageSecretsClusterWide ::
  "'w env \<Rightarrow> string \<Rightarrow> 'w world \<Rightarrow> error option \<times> 'w world" where
  "manageSecretsClusterWide E token w =
     (case getK8sConfig E of
        Some err \<Rightarrow> (Some (Errorf ''failed to get Kubernetes config: %w'' [AErr (Ext err)]), w)
      | None \<Rightarrow>
         (case NewForConfig E of
            Some err \<Rightarrow>
              (Some (Errorf ''failed to create Kubernetes client: %w'' [AErr (Ext err)]), w)
          | None \<Rightarrow>
             (case listNamespaces E w of
                (Inl err, w1) \<Rightarrow>
                  (Some (Errorf ''failed to list namespaces: %w'' [AErr err]), w1)
              | (Inr namespaces, w1) \<Rightarrow>
                 (case manageSecretsClusterWide_loop E token namespaces ([], 0) w1 of
                    ((errorList, successCount), w2) \<Rightarrow>
                      if length errorList > 0 then
                        (Some (Errorf ''completed with %d errors: %v''
                                 [AInt (int (length errorList)), AErrs errorList]), w2)
                      else (None, w2)))))"

section \<open>The program with target namespaces and patches (unnamed/part_003, second file)\<close>

definition defaultScopes :: string where
  "defaultScopes = ''openid''"

definition defaultSecretName :: string where
  "defaultSecretName = ''oidc-token-secret''"

definition defaultSecretKey :: string where
  "defaultSecretKey = ''token''"

definition TargetNamespacesEnvVar :: string where
  "TargetNamespacesEnvVar = ''TARGET_NAMESPACES''"

text \<open>
  \<open>log.Fatalf\<close> ends the process with exit code 1; a function that may call it has an
  outcome: the exit, or its return value.
\<close>

datatype 'a outcome = Exit nat | Return 'a

definition getEnvOrDie :: "'w env \<Rightarrow> string \<Rightarrow> string outcome" where
  "getEnvOrDie E key = (if Getenv E key = [] then Exit 1 else Return (Getenv E key))"

definition getEnv :: "'w env \<Rightarrow> string \<Rightarrow> string \<Rightarrow> string" where
  "getEnv E key defaultValue =
     (case environ E key of None \<Rightarrow> defaultValue | Some v \<Rightarrow> v)"

text \<open>
  \<open>fetchOIDCToken\<close> has named results \<open>(accessToken, err)\<close>; the deferred function closes
  the body and turns a failure to close into the error when there is none yet.
\<close>

definition fetchOIDCToken ::
  "'w env \<Rightarrow> string \<Rightarrow> string \<Rightarrow> string \<Rightarrow> string \<Rightarrow> 'w world
     \<Rightarrow> (string \<times> error option) \<times> 'w world" where
  "fetchOIDCToken E tokenURL clientID clientSecret scopes w =
     (let data = [(''grant_type'', [''client_credentials'']), (''client_id'', [clientID]),
                  (''client_secret'', [clientSecret]), (''scope'', [scopes])]
      in case NewRequest E tokenURL of
           Some err \<Rightarrow>
             (([], Some (Errorf ''failed to create request: %w'' [AErr (Ext err)])), w)
         | None \<Rightarrow>
            (case client_Do E \<lparr>Method = ''POST'', URL = tokenURL,
                                ContentType = ''application/x-www-form-urlencoded'',
                                Form = data\<rparr> w of
               (Inl err, w1) \<Rightarrow>
                 (([], Some (Errorf ''failed to send request: %w'' [AErr (Ext err)])), w1)
             | (Inr resp, w1) \<Rightarrow>
                 (let result =
                        (if StatusCode resp \<noteq> StatusOK then
                           ([], Some (Errorf ''failed to fetch token, status code: %d''
                                        [AInt (StatusCode resp)]))
                         else
                           (case Decode E (Body resp) of
                              Inl err \<Rightarrow>
                                ([], Some (Errorf ''failed to decode token response: %w''
                                             [AErr (Ext err)]))
                            | Inr tokenResponse \<Rightarrow>
                                if AccessToken tokenResponse = []
                                then ([], Some (Errorf ''access token not found in response'' []))
                                else (AccessToken tokenResponse, None)))
                  in case CloseErr resp of
                       None \<Rightarrow> (result, w1)
                     | Some closeErr \<Rightarrow>
                         if snd result = None then
                           ((fst result,
                             Some (Errorf ''failed to close response body: %w''
                                     [AErr (Ext closeErr)])), w1)
                         else (result, w1))))"

definition getKubeClient :: "'w env \<Rightarrow> error option" where
  "getKubeClient E =
     (case InClusterConfig E of
        Some err \<Rightarrow>
          Some (Errorf ''failed to get in-cluster config: %w. For local dev, ensure KUBECONFIG is set or run within a cluster''
                  [AErr (Ext err)])
      | None \<Rightarrow>
         (case NewForConfig E of
            Some err \<Rightarrow>
              Some (Errorf ''failed to create kubernetes clientset: %w'' [AErr (Ext err)])
          | None \<Rightarrow> None))"

definition listNamespaces_ctx :: "'w env \<Rightarrow> 'w world \<Rightarrow> (error + string list) \<times> 'w world" where
  "listNamespaces_ctx E w =
     (case api_List E w of
        (Inl err, w1) \<Rightarrow> (Inl (Errorf ''failed to list namespaces: %w'' [AErr (Ext err)]), w1)
      | (Inr names, w1) \<Rightarrow> (Inr names, w1))"

text \<open>
  \<open>json.Marshal\<close> of the patch payload, a map of maps of strings, cannot fail; the bytes
  sent are identified with the JSON value they denote.
\<close>

definition json_Marshal :: "json \<Rightarrow> ext_error + json" where
  "json_Marshal v = Inr v"

definition createOrUpdateSecret ::
  "'w env \<Rightarrow> string \<Rightarrow> string \<Rightarrow> string \<Rightarrow> string \<Rightarrow> 'w world \<Rightarrow> error option \<times> 'w world" where
  "createOrUpdateSecret E namespace sName sKey token w =
     (case api_Get E namespace sName w of
        (Inl err, w1) \<Rightarrow>
          if Contains (Message err) ''not found'' then
            (let newSecret =
                   \<lparr>ObjectMeta = \<lparr>Name = sName, Namespace = namespace, Labels = Map.empty\<rparr>,
                    Type = SecretTypeOpaque,
                    Data = [sKey \<mapsto> token],
                    StringData = Map.empty\<rparr>
             in case api_Create E namespace newSecret w1 of
                  (Some createErr, w2) \<Rightarrow>
                    (Some (Errorf ''failed to create secret '%s' in namespace '%s': %w''
                             [AStr sName, AStr namespace, AErr (Ext createErr)]), w2)
                | (None, w2) \<Rightarrow> (None, w2))
          else
            (Some (Errorf ''failed to get secret '%s' in namespace '%s': %w''
                     [AStr sName, AStr namespace, AErr (Ext err)]), w1)
      | (Inr _, w1) \<Rightarrow>
          (let patchPayload = JObject [(''data'', JObject [(sKey, JString (EncodeToString token))])]
           in case json_Marshal patchPayload of
                Inl marshalErr \<Rightarrow>
                  (Some (Errorf ''failed to marshal patch payload for secret '%s' in namespace '%s': %w''
                           [AStr sName, AStr namespace, AErr (Ext marshalErr)]), w1)
              | Inr patchBytes \<Rightarrow>
                 (case api_Patch E namespace sName patchBytes w1 of
                    (Some patchErr, w2) \<Rightarrow>
                      (Some (Errorf ''failed to patch secret '%s' in namespace '%s': %w''
                               [AStr sName, AStr namespace, AErr (Ext patchErr)]), w2)
                  | (None, w2) \<Rightarrow> (None, w2))))"

text \<open>\<open>ctx.Err()\<close> of the cancelled signal context.\<close>

definition Canceled :: error where
  "Canceled = Ext (ExtError False ''context canceled'')"

fun processSecretsInNamespaces ::
  "'w env \<Rightarrow> string list \<Rightarrow> string \<Rightarrow> string \<Rightarrow> string \<Rightarrow> 'w world
     \<Rightarrow> error option outcome \<times> 'w world" where
  "processSecretsInNamespaces E [] sName sKey accessToken w = (Return None, w)"
| "processSecretsInNamespaces E (ns # rest) sName sKey accessToken w =
     (if ctx_Done E (ext w) then (Return (Some Canceled), w)
      else
        (case createOrUpdateSecret E ns sName sKey accessToken w of
           (Some err, w1) \<Rightarrow>
             if DeadlineExceeded E (ext w1) then (Exit 1, w1)
             else if ctx_Done E (ext w1) then (Return (Some Canceled), w1)
             else (Exit 1, w1)
         | (None, w1) \<Rightarrow> processSecretsInNamespaces E rest sName sKey accessToken w1))"

text \<open>
  The two loops of \<open>main\<close> over the pieces of \<open>TARGET_NAMESPACES\<close>: the first trims every
  piece in place, by index; the second appends the non-empty ones to a new slice.
\<close>

function trim_loop :: "string list \<Rightarrow> nat \<Rightarrow> string list" where
  "trim_loop namespacesToProcess i =
     (if i < length namespacesToProcess
      then trim_loop (namespacesToProcess[i := TrimSpace (namespacesToProcess ! i)]) (i + 1)
      else namespacesToProcess)"
  by pat_completeness auto
termination
  by (relation "measure (\<lambda>(namespacesToProcess, i). length namespacesToProcess - i)") auto

declare trim_loop.simps [simp del]

fun nonEmpty_loop :: "string list \<Rightarrow> string list \<Rightarrow> string list" where
  "nonEmpty_loop [] nonEmptyNamespaces = nonEmptyNamespaces"
| "nonEmpty_loop (ns # rest) nonEmptyNamespaces =
     nonEmpty_loop rest (if ns \<noteq> [] then nonEmptyNamespaces @ [ns] else nonEmptyNamespaces)"

text \<open>
  The part of \<open>main\<close> that determines \<open>namespacesToProcess\<close>: from \<open>TARGET_NAMESPACES\<close> when
  it is set and not empty, from the cluster otherwise. A failed listing ends the process
  (\<open>Exit 1\<close>), or returns from \<open>main\<close> (\<open>Return None\<close>) when the signal context is cancelled.
\<close>

definition namespacesToProcess :: "'w env \<Rightarrow> 'w world \<Rightarrow> string list option outcome \<times> 'w world" where
  "namespacesToProcess E w =
     (let targetNamespacesStr = Getenv E TargetNamespacesEnvVar
      in if targetNamespacesStr \<noteq> [] then
           (Return (Some (nonEmpty_loop (trim_loop (Split targetNamespacesStr CHR '','') 0) [])),
            w)
         else
           (case listNamespaces_ctx E w of
              (Inl listErr, w1) \<Rightarrow>
                if DeadlineExceeded E (ext w1) then (Exit 1, w1)
                else if ctx_Done E (ext w1) then (Return None, w1)
                else (Exit 1, w1)
            | (Inr namespacesFromCluster, w1) \<Rightarrow> (Return (Some namespacesFromCluster), w1)))"

text \<open>\<open>main\<close>: the result is the exit code of the process.\<close>

definition main :: "'w env \<Rightarrow> 'w world \<Rightarrow> nat \<times> 'w world" where
  "main E w =
     (case getEnvOrDie E ''OIDC_TOKEN_URL'' of Exit c \<Rightarrow> (c, w) | Return tokenURL \<Rightarrow>
     (case getEnvOrDie E ''OIDC_CLIENT_ID'' of Exit c \<Rightarrow> (c, w) | Return clientID \<Rightarrow>
     (case getEnvOrDie E ''OIDC_CLIENT_SECRET'' of Exit c \<Rightarrow> (c, w) | Return clientSecret \<Rightarrow>
      (let scopes = getEnv E ''OIDC_SCOPES'' defaultScopes;
           k8sSecretName = getEnv E ''K8S_SECRET_NAME'' defaultSecretName;
           k8sSecretKey = getEnv E ''K8S_SECRET_KEY'' defaultSecretKey
       in case fetchOIDCToken E tokenURL clientID clientSecret scopes w of
            ((_, Some err), w1) \<Rightarrow> (1, w1)
          | ((accessToken, None), w1) \<Rightarrow>
             (case getKubeClient E of
                Some err \<Rightarrow> (1, w1)
              | None \<Rightarrow>
                 (case namespacesToProcess E w1 of
                    (Exit c, w2) \<Rightarrow> (c, w2)
                  | (Return None, w2) \<Rightarrow> (0, w2)
                  | (Return (Some namespaces), w2) \<Rightarrow>
                      if length namespaces = 0 then (0, w2)
                      else
                        (case processSecretsInNamespaces E namespaces k8sSecretName
                                k8sSecretKey accessToken w2 of
                           (Exit c, w3) \<Rightarrow> (c, w3)
                         | (Return (Some err), w3) \<Rightarrow> (0, w3)
                         | (Return None, w3) \<Rightarrow> (0, w3))))))))"

section \<open>The single-namespace program (main.go, first file)\<close>

text \<open>This \<open>readFile\<close> returns the empty string when the file cannot be read.\<close>

definition readFile_main_go :: "'w env \<Rightarrow> string \<Rightarrow> string" where
  "readFile_main_go E path =
     (case ReadFile E path of Inl err \<Rightarrow> [] | Inr data \<Rightarrow> TrimSpace data)"

definition getOIDCToken_main_go :: "'w env \<Rightarrow> 'w world \<Rightarrow> (error + string) \<times> 'w world" where
  "getOIDCToken_main_go E w =
     (let vals = [(''client_id'', [Getenv E ''CLIENT_ID'']),
                  (''client_secret'', [readFile_main_go E (Getenv E ''CLIENT_SECRET_FILE'')]),
                  (''grant_type'', [''client_credentials''])];
          vals = (if Getenv E ''SCOPE'' \<noteq> [] then vals @ [(''scope'', [Getenv E ''SCOPE''])]
                  else vals)
      in case PostForm E (Getenv E ''TOKEN_ENDPOINT_URL'') vals w of
           (Inl err, w1) \<Rightarrow> (Inl (Errorf ''token request failed: %w'' [AErr (Ext err)]), w1)
         | (Inr resp, w1) \<Rightarrow>
             if StatusCode resp \<noteq> StatusOK then
               (Inl (Errorf ''token endpoint returned %d: %s''
                       [AInt (StatusCode resp),
                        AStr (case Body resp of Unread (Inr data) \<Rightarrow> data | _ \<Rightarrow> [])]), w1)
             else
               (case Decode E (Body resp) of
                  Inl err \<Rightarrow>
                    (Inl (Errorf ''failed to decode token response: %w'' [AErr (Ext err)]), w1)
                | Inr tokenResp \<Rightarrow>
                    if AccessToken tokenResp = []
                    then (Inl (Errorf ''empty access token in response'' []), w1)
                    else (Inr (AccessToken tokenResp), w1)))"

section \<open>A reference environment\<close>

text \<open>
  A concrete environment, used where a statement is about the stored Secrets and not only
  about the calls issued: an API server that keeps Secrets by namespace and name, with
  scripted faults (one entry per API call, \<open>None\<close> for a call that is served), and a token
  endpoint with scripted answers.

  The server follows the Kubernetes API: a Secret's \<open>stringData\<close> is a write-only input
  that is merged into \<open>data\<close> on every write and never returned; a JSON merge patch
  (RFC 7386) replaces the members it names, deletes those it sets to \<open>null\<close> and leaves
  every other member as it is; the values of \<open>data\<close> travel as base64 text. The
  server does not look at the name of a Secret; the client refuses an empty name before
  any request, and the statements about reconciling a Secret twice assume a name that is
  not empty.
\<close>

record server =
  objects :: "string \<times> string \<rightharpoonup> Secret"
  cluster :: "string list"
  faults :: "ext_error option list"
  answers :: "(ext_error + Response) list"
  signalled :: bool
  timed_out :: bool

definition next_fault :: "server \<Rightarrow> ext_error option \<times> server" where
  "next_fault x = (case faults x of [] \<Rightarrow> (None, x) | f # fs \<Rightarrow> (f, x\<lparr>faults := fs\<rparr>))"

definition admit :: "string \<Rightarrow> Secret \<Rightarrow> Secret" where
  "admit namespace secret =
     secret\<lparr>ObjectMeta := (ObjectMeta secret)\<lparr>Namespace := namespace\<rparr>,
            Data := Data secret ++ StringData secret,
            StringData := Map.empty\<rparr>"

definition not_found :: "string \<Rightarrow> ext_error" where
  "not_found name = ExtError True (''secrets '' @ name @ '' not found'')"

definition srv_Do :: "server \<Rightarrow> Request \<Rightarrow> (ext_error + Response) \<times> server" where
  "srv_Do x req =
     (case answers x of
        [] \<Rightarrow> (Inl (ExtError False ''connection refused''), x)
      | r # rs \<Rightarrow> (r, x\<lparr>answers := rs\<rparr>))"

definition srv_List :: "server \<Rightarrow> (ext_error + string list) \<times> server" where
  "srv_List x =
     (case next_fault x of
        (Some err, x') \<Rightarrow> (Inl err, x')
      | (None, x') \<Rightarrow> (Inr (cluster x'), x'))"

definition srv_Get :: "server \<Rightarrow> string \<Rightarrow> string \<Rightarrow> (ext_error + Secret) \<times> server" where
  "srv_Get x namespace name =
     (case next_fault x of
        (Some err, x') \<Rightarrow> (Inl err, x')
      | (None, x') \<Rightarrow>
         (case objects x' (namespace, name) of
            None \<Rightarrow> (Inl (not_found name), x')
          | Some secret \<Rightarrow> (Inr secret, x')))"

definition srv_Create :: "server \<Rightarrow> string \<Rightarrow> Secret \<Rightarrow> ext_error option \<times> server" where
  "srv_Create x namespace secret =
     (case next_fault x of
        (Some err, x') \<Rightarrow> (Some err, x')
      | (None, x') \<Rightarrow>
         (let name = Name (ObjectMeta secret)
          in case objects x' (namespace, name) of
               Some _ \<Rightarrow> (Some (ExtError False (''secrets '' @ name @ '' already exists'')), x')
             | None \<Rightarrow>
                 (None, x'\<lparr>objects := (objects x')((namespace, name) \<mapsto> admit namespace secret)\<rparr>)))"

definition srv_Update :: "server \<Rightarrow> string \<Rightarrow> Secret \<Rightarrow> ext_error option \<times> server" where
  "srv_Update x namespace secret =
     (case next_fault x of
        (Some err, x') \<Rightarrow> (Some err, x')
      | (None, x') \<Rightarrow>
         (let name = Name (ObjectMeta secret)
          in case objects x' (namespace, name) of
               None \<Rightarrow> (Some (not_found name), x')
             | Some _ \<Rightarrow>
                 (None, x'\<lparr>objects := (objects x')((namespace, name) \<mapsto> admit namespace secret)\<rparr>)))"

text \<open>
  Merging the members of a patch object into a map of strings: \<open>null\<close> deletes the key, a
  string sets it (after \<open>conv\<close>: base64 decoding for \<open>data\<close>), anything else is invalid.
\<close>

fun patch_strings ::
  "(string \<times> json) list \<Rightarrow> (string \<Rightarrow> string option) \<Rightarrow> (string \<rightharpoonup> string)
     \<Rightarrow> (string \<rightharpoonup> string) option" where
  "patch_strings [] conv m = Some m"
| "patch_strings ((k, v) # kvs) conv m =
     (case v of
        JNull \<Rightarrow> patch_strings kvs conv (m(k := None))
      | JString t \<Rightarrow>
         (case conv t of
            None \<Rightarrow> None
          | Some b \<Rightarrow> patch_strings kvs conv (m(k \<mapsto> b)))
      | JObject _ \<Rightarrow> None)"

fun patch_metadata :: "(string \<times> json) list \<Rightarrow> ObjectMeta \<Rightarrow> ObjectMeta option" where
  "patch_metadata [] meta = Some meta"
| "patch_metadata ((k, v) # kvs) meta =
     (if k = ''labels'' then
        (case v of
           JNull \<Rightarrow> patch_metadata kvs (meta\<lparr>Labels := Map.empty\<rparr>)
         | JString _ \<Rightarrow> None
         | JObject ls \<Rightarrow>
            (case patch_strings ls Some (Labels meta) of
               None \<Rightarrow> None
             | Some m \<Rightarrow> patch_metadata kvs (meta\<lparr>Labels := m\<rparr>)))
      else patch_metadata kvs meta)"

fun patch_members :: "(string \<times> json) list \<Rightarrow> Secret \<Rightarrow> Secret option" where
  "patch_members [] secret = Some secret"
| "patch_members ((k, v) # kvs) secret =
     (if k = ''data'' then
        (case v of
           JNull \<Rightarrow> patch_members kvs (secret\<lparr>Data := Map.empty\<rparr>)
         | JString _ \<Rightarrow> None
         | JObject d \<Rightarrow>
            (case patch_strings d DecodeString (Data secret) of
               None \<Rightarrow> None
             | Some m \<Rightarrow> patch_members kvs (secret\<lparr>Data := m\<rparr>)))
      else if k = ''stringData'' then
        (case v of
           JNull \<Rightarrow> patch_members kvs secret
         | JString _ \<Rightarrow> None
         | JObject d \<Rightarrow>
            (case patch_strings d Some (Data secret) of
               None \<Rightarrow> None
             | Some m \<Rightarrow> patch_members kvs (secret\<lparr>Data := m\<rparr>)))
      else if k = ''metadata'' then
        (case v of
           JObject md \<Rightarrow>
            (case patch_metadata md (ObjectMeta secret) of
               None \<Rightarrow> None
             | Some meta \<Rightarrow> patch_members kvs (secret\<lparr>ObjectMeta := meta\<rparr>))
         | _ \<Rightarrow> None)
      else patch_members kvs secret)"

definition merge_patch :: "json \<Rightarrow> Secret \<Rightarrow> Secret option" where
  "merge_patch patch secret =
     (case patch of JObject kvs \<Rightarrow> patch_members kvs secret | _ \<Rightarrow> None)"

definition srv_Patch :: "server \<Rightarrow> string \<Rightarrow> string \<Rightarrow> json \<Rightarrow> ext_error option \<times> server" where
  "srv_Patch x namespace name patch =
     (case next_fault x of
        (Some err, x') \<Rightarrow> (Some err, x')
      | (None, x') \<Rightarrow>
         (case objects x' (namespace, name) of
            None \<Rightarrow> (Some (not_found name), x')
          | Some secret \<Rightarrow>
             (case merge_patch patch secret of
                None \<Rightarrow> (Some (ExtError False ''the patch is invalid''), x')
              | Some secret' \<Rightarrow>
                  (None, x'\<lparr>objects := (objects x')((namespace, name) \<mapsto> secret')\<rparr>))))"

text \<open>
  The reference environment over a process environment, a file system and a decoder for
  the token response; the in-cluster configuration is found.
\<close>

definition reference ::
  "(string \<rightharpoonup> string) \<Rightarrow> (string \<rightharpoonup> string) \<Rightarrow> (string \<Rightarrow> ext_error + TokenResponse)
     \<Rightarrow> server env" where
  "reference vars files dec =
     \<lparr>environ = vars,
      ReadFile = (\<lambda>path. case files path of
                           None \<Rightarrow> Inl (ExtError False ''no such file or directory'')
                         | Some data \<Rightarrow> Inr data),
      NewRequest = (\<lambda>url. None),
      http_Do = srv_Do,
      json_Decode = dec,
      InClusterConfig = None,
      BuildConfigFromFlags = None,
      NewForConfig = None,
      k8s_List = srv_List,
      k8s_Get = srv_Get,
      k8s_Create = srv_Create,
      k8s_Update = srv_Update,
      k8s_Patch = srv_Patch,
      ctx_Done = signalled,
      DeadlineExceeded = timed_out\<rparr>"

text \<open>A server with the given Secrets and namespaces, no faults and no answers.\<close>

definition quiet :: "(string \<times> string \<rightharpoonup> Secret) \<Rightarrow> string list \<Rightarrow> server world" where
  "quiet objs nss =
     \<lparr>ext = \<lparr>objects = objs, cluster = nss, faults = [], answers = [],
             signalled = False, timed_out = False\<rparr>,
      trace = []\<rparr>"

section \<open>Notions used in the statements\<close>

text \<open>An attempt at the token endpoint fails on a transport error or a status other than 200.\<close>

definition failed :: "ext_error + Response \<Rightarrow> bool" where
  "failed r = (case r of Inl err \<Rightarrow> True | Inr resp \<Rightarrow> StatusCode resp \<noteq> StatusOK)"

text \<open>The request that \<open>getOIDCToken\<close> posts: the form, and the request carrying it.\<close>

definition token_form :: "'w env \<Rightarrow> string \<Rightarrow> values" where
  "token_form E clientSecret =
     [(''client_id'', [Getenv E ''CLIENT_ID'']), (''client_secret'', [clientSecret]),
      (''grant_type'', [''client_credentials''])]
     @ (if Getenv E ''SCOPE'' \<noteq> [] then [(''scope'', [Getenv E ''SCOPE''])] else [])"

definition form_request :: "'w env \<Rightarrow> values \<Rightarrow> Request" where
  "form_request E vals =
     \<lparr>Method = ''POST'', URL = Getenv E ''TOKEN_ENDPOINT_URL'',
      ContentType = ''application/x-www-form-urlencoded'', Form = vals\<rparr>"

text \<open>
  The answers of the endpoint to \<open>n\<close> successive requests from state \<open>x\<close>, and the state
  that they leave.
\<close>

fun replies :: "'w env \<Rightarrow> Request \<Rightarrow> nat \<Rightarrow> 'w \<Rightarrow> (ext_error + Response) list" where
  "replies E req 0 x = []"
| "replies E req (Suc n) x = fst (http_Do E x req) # replies E req n (snd (http_Do E x req))"

fun state_after :: "'w env \<Rightarrow> Request \<Rightarrow> nat \<Rightarrow> 'w \<Rightarrow> 'w" where
  "state_after E req 0 x = x"
| "state_after E req (Suc n) x = state_after E req n (snd (http_Do E x req))"

text \<open>
  The number of attempts that a list of answers allows: up to and including the first
  answer that is not a failure, and all of them when every answer is a failure.
\<close>

definition attempts :: "(ext_error + Response) list \<Rightarrow> nat" where
  "attempts rs = min (length rs) (Suc (length (takeWhile failed rs)))"

text \<open>
  The events of successive attempts with the delays between them: after attempt \<open>i\<close>
  (counted from 1) and before attempt \<open>i + 1\<close> a sleep of \<open>i\<close> times the base delay, and
  nothing after the last attempt.
\<close>

fun with_delays :: "nat \<Rightarrow> event list list \<Rightarrow> event list" where
  "with_delays i [] = []"
| "with_delays i [s] = s"
| "with_delays i (s # t # rest) =
     s @ [EvSleep (int i * baseRetryDelay)] @ with_delays (i + 1) (t # rest)"

text \<open>The loop state that a failed attempt leaves.\<close>

definition carry :: "ext_error + Response \<Rightarrow> Response option \<times> ext_error option" where
  "carry r = (case r of Inl err \<Rightarrow> (None, Some err)
                      | Inr resp \<Rightarrow> (Some (resp\<lparr>Body := Closed\<rparr>), None))"

text \<open>What \<open>getOIDCToken\<close> returns after the loop, from the answer of the last attempt.\<close>

definition token_result :: "'w env \<Rightarrow> ext_error + Response \<Rightarrow> error + string" where
  "token_result E r =
     (case r of
        Inl err \<Rightarrow>
          Inl (Errorf ''token request failed after %d attempts: %w'' [AInt 3, AErr (Ext err)])
      | Inr resp \<Rightarrow>
          if StatusCode resp \<noteq> StatusOK then
            Inl (Errorf ''token endpoint returned %d: %s'' [AInt (StatusCode resp), AStr []])
          else
            (case Decode E (Body resp) of
               Inl err \<Rightarrow> Inl (Errorf ''failed to decode token response: %w'' [AErr (Ext err)])
             | Inr tokenResp \<Rightarrow>
                 if AccessToken tokenResp = [] then Inl (New ''empty access token in response'')
                 else Inr (AccessToken tokenResp)))"

text \<open>
  The outcome of every namespace under the cluster-wide loop, in order, each from the
  world that the namespaces before it have left; and the world after the last one.
\<close>

fun outcomes :: "'w env \<Rightarrow> string \<Rightarrow> string list \<Rightarrow> 'w world \<Rightarrow> (string \<times> error option) list" where
  "outcomes E token [] w = []"
| "outcomes E token (ns # rest) w =
     (ns, fst (withRetries (manageNamespaceSecret E token ns) w))
       # outcomes E token rest (snd (withRetries (manageNamespaceSecret E token ns) w))"

fun world_after :: "'w env \<Rightarrow> string \<Rightarrow> string list \<Rightarrow> 'w world \<Rightarrow> 'w world" where
  "world_after E token [] w = w"
| "world_after E token (ns # rest) w =
     world_after E token rest (snd (withRetries (manageNamespaceSecret E token ns) w))"

text \<open>The error list built from the outcomes: one entry for every namespace that failed.\<close>

fun errors_of :: "(string \<times> error option) list \<Rightarrow> error list" where
  "errors_of [] = []"
| "errors_of ((ns, None) # rest) = errors_of rest"
| "errors_of ((ns, Some err) # rest) =
     Errorf ''namespace %s: %w'' [AStr ns, AErr err] # errors_of rest"

text \<open>The calls that write: create, update and patch.\<close>

fun is_write :: "event \<Rightarrow> bool" where
  "is_write (EvCreate namespace secret) = True"
| "is_write (EvUpdate namespace secret) = True"
| "is_write (EvPatch namespace name patch) = True"
| "is_write _ = False"

definition writes :: "event list \<Rightarrow> event list" where
  "writes evs = filter is_write evs"

section \<open>Concrete environments\<close>

text \<open>The reference server with scripted answers of the token endpoint, or scripted faults.\<close>

definition answering :: "(ext_error + Response) list \<Rightarrow> server world \<Rightarrow> server world" where
  "answering rs w = w\<lparr>ext := (ext w)\<lparr>answers := rs\<rparr>\<rparr>"

definition failing :: "ext_error option list \<Rightarrow> server world \<Rightarrow> server world" where
  "failing fs w = w\<lparr>ext := (ext w)\<lparr>faults := fs\<rparr>\<rparr>"

text \<open>
  The environment of a process of the cluster-wide program: the three required variables
  and a readable secret file, over a decoder for the token response; a decoder that
  rejects every body; and an answer of the token endpoint with a status and a body.
\<close>

definition provider :: "(string \<Rightarrow> ext_error + TokenResponse) \<Rightarrow> server env" where
  "provider dec =
     reference [''CLIENT_SECRET_FILE'' \<mapsto> ''/etc/oidc/secret'', ''CLIENT_ID'' \<mapsto> ''fetcher'',
                ''TOKEN_ENDPOINT_URL'' \<mapsto> ''https://idp/token'']
               [''/etc/oidc/secret'' \<mapsto> '' s3cret ''] dec"

definition reject :: "string \<Rightarrow> ext_error + TokenResponse" where
  "reject body = Inl (ExtError False ''invalid character'')"

definition status :: "int \<Rightarrow> string \<Rightarrow> ext_error + Response" where
  "status code body = Inr \<lparr>StatusCode = code, Body = Unread (Inr body), CloseErr = None\<rparr>"

text \<open>The same process with a token endpoint that answers every request with status 500.\<close>

definition always_500 :: "server env" where
  "always_500 =
     (provider reject)
     \<lparr>http_Do := (\<lambda>x req. (Inr \<lparr>StatusCode = 500, Body = Unread (Inr ''oops''), CloseErr = None\<rparr>, x))\<rparr>"

text \<open>A decoder that accepts the one body of the example.\<close>

definition abc_body :: string where
  \<open>abc_body = ''{"access_token":"abc"}''\<close>

definition decode_abc :: "string \<Rightarrow> ext_error + TokenResponse" where
  "decode_abc body =
     (if body = abc_body then Inr \<lparr>AccessToken = ''abc''\<rparr>
      else Inl (ExtError False ''invalid character''))"

text \<open>
  A cluster with the namespaces a, b and c and no Secret, where the three calls for b
  (the fourth to sixth API call) are refused.
\<close>

definition forbidden :: ext_error where
  "forbidden = ExtError False ''secrets is forbidden''"

definition cluster_abc :: "server world" where
  "cluster_abc =
     failing [None, None, None, Some forbidden, Some forbidden, Some forbidden]
       (quiet Map.empty [''a'', ''b'', ''c''])"

text \<open>A cluster with the namespaces a, b and c and no Secret, where the call for b is refused.\<close>

definition cluster_abc_patch :: "server world" where
  "cluster_abc_patch =
     failing [None, None, Some forbidden] (quiet Map.empty [''a'', ''b'', ''c''])"

text \<open>
  The environment of the program with target namespaces: the three required variables and
  the given value of \<open>TARGET_NAMESPACES\<close>.
\<close>

definition targeting :: "string \<Rightarrow> server env" where
  "targeting namespaces =
     reference [''OIDC_TOKEN_URL'' \<mapsto> ''https://idp/token'', ''OIDC_CLIENT_ID'' \<mapsto> ''fetcher'',
                ''OIDC_CLIENT_SECRET'' \<mapsto> ''s3cret'', ''TARGET_NAMESPACES'' \<mapsto> namespaces]
               Map.empty decode_abc"

text \<open>A namespace whose Secret holds the token under its key, another key, and a label.\<close>

definition stored :: Secret where
  "stored =
     \<lparr>ObjectMeta = \<lparr>Name = ''oidc-token-secret'', Namespace = ''a'',
                     Labels = [''team'' \<mapsto> ''payments'']\<rparr>,
      Type = SecretTypeOpaque,
      Data = [''token'' \<mapsto> ''t1'', ''ca.crt'' \<mapsto> ''PEM''],
      StringData = Map.empty\<rparr>"

definition cluster_stored :: "server world" where
  "cluster_stored = quiet [(''a'', ''oidc-token-secret'') \<mapsto> stored] [''a'']"

section \<open>The token request of the cluster-wide program\<close>

lemma readResponseBody_closes: "snd (readResponseBody b) = Closed"
  by (simp add: readResponseBody_def split: reader.splits sum.splits)

lemma getOIDCToken_loop_done: "getOIDCToken_loop E vals 3 st w = (st, w)"
  by (subst getOIDCToken_loop.simps) (simp add: maxRetries_def)

lemma getOIDCToken_loop_failed:
  assumes "i < 3" and "http_Do E (ext w) (form_request E vals) = (r, x)" and "failed r"
  shows "getOIDCToken_loop E vals i st w =
           getOIDCToken_loop E vals (i + 1) (carry r)
             \<lparr>ext = x, trace = trace w @ EvDo (form_request E vals)
                  # (if i < 2 then [EvSleep (int (i + 1) * baseRetryDelay)] else [])\<rparr>"
  using assms
  by (subst getOIDCToken_loop.simps)
     (auto simp add: maxRetries_def PostForm_def client_Do_def form_request_def failed_def
        carry_def Sleep_def readResponseBody_closes Let_def split: sum.splits)

lemma getOIDCToken_loop_ok:
  assumes "i < 3" and "http_Do E (ext w) (form_request E vals) = (r, x)" and "\<not> failed r"
  shows "getOIDCToken_loop E vals i st w =
           ((Some (projr r), None), \<lparr>ext = x, trace = trace w @ [EvDo (form_request E vals)]\<rparr>)"
  using assms
  by (subst getOIDCToken_loop.simps)
     (auto simp add: maxRetries_def PostForm_def client_Do_def form_request_def failed_def
        split: sum.splits)

lemma getOIDCToken_loop_spec:
  shows "getOIDCToken_loop E vals 0 st w =
     (let rs = replies E (form_request E vals) 3 (ext w); k = attempts rs
      in ((if failed (rs ! (k - 1)) then carry (rs ! (k - 1)) else (Some (projr (rs ! (k - 1))), None)),
          \<lparr>ext = state_after E (form_request E vals) k (ext w),
           trace = trace w @ with_delays 1 (replicate k [EvDo (form_request E vals)])\<rparr>))"
proof -
  obtain r1 x1 where 1: "http_Do E (ext w) (form_request E vals) = (r1, x1)" by force
  obtain r2 x2 where 2: "http_Do E x1 (form_request E vals) = (r2, x2)" by force
  obtain r3 x3 where 3: "http_Do E x2 (form_request E vals) = (r3, x3)" by force
  have rs: "replies E (form_request E vals) 3 (ext w) = [r1, r2, r3]"
    by (simp add: numeral_3_eq_3 1 2 3)
  have sa: "state_after E (form_request E vals) (Suc 0) (ext w) = x1"
     "state_after E (form_request E vals) 2 (ext w) = x2" "state_after E (form_request E vals) 3 (ext w) = x3"
    by (simp_all add: numeral_3_eq_3 numeral_2_eq_2 1 2 3)
  show ?thesis
  proof (cases "failed r1")
    case False
    then show ?thesis
      using 1 getOIDCToken_loop_ok[of 0 E w vals r1 x1 st]
      by (simp add: rs sa attempts_def Let_def)
  next
    case f1: True
    show ?thesis
    proof (cases "failed r2")
      case False
      then show ?thesis
        using f1 1 2 getOIDCToken_loop_failed[of 0 E w vals r1 x1 st]
          getOIDCToken_loop_ok[of 1 E _ vals r2 x2]
        by (simp add: rs sa attempts_def Let_def numeral_2_eq_2)
    next
      case f2: True
      show ?thesis
      proof (cases "failed r3")
        case False
        then show ?thesis
          using f1 f2 1 2 3 getOIDCToken_loop_failed[of 0 E w vals r1 x1 st]
            getOIDCToken_loop_failed[of 1 E _ vals r2 x2]
            getOIDCToken_loop_ok[of 2 E _ vals r3 x3]
          by (simp add: rs sa attempts_def Let_def numeral_3_eq_3 numeral_2_eq_2)
      next
        case True
        then show ?thesis
          using f1 f2 1 2 3 getOIDCToken_loop_failed[of 0 E w vals r1 x1 st]
            getOIDCToken_loop_failed[of 1 E _ vals r2 x2]
            getOIDCToken_loop_failed[of 2 E _ vals r3 x3]
          by (simp add: rs sa attempts_def Let_def numeral_3_eq_3 numeral_2_eq_2 getOIDCToken_loop_done[unfolded numeral_3_eq_3])
      qed
    qed
  qed
qed

lemma getOIDCToken_unreadable:
  assumes "readFile E (Getenv E ''CLIENT_SECRET_FILE'') = Inl err"
  shows "getOIDCToken E w = (Inl (Errorf ''failed to read client secret: %w'' [AErr err]), w)"
  using assms by (simp add: getOIDCToken_def)

lemma token_result_carry:
  "failed r \<Longrightarrow>
     (case (carry r, w') of
        ((_, Some lastError), w') \<Rightarrow>
          (Inl (Errorf ''token request failed after %d attempts: %w''
                  [AInt (int maxRetries), AErr (Ext lastError)]), w')
      | ((None, None), w') \<Rightarrow> (Inl (Panic ''nil pointer dereference''), w')
      | ((Some resp, None), w') \<Rightarrow>
          if StatusCode resp \<noteq> StatusOK then
            (Inl (Errorf ''token endpoint returned %d: %s''
                    [AInt (StatusCode resp),
                     AStr (fst (fst (readResponseBody (Body resp))))]), w')
          else
            (case Decode E (Body resp) of
               Inl err \<Rightarrow>
                 (Inl (Errorf ''failed to decode token response: %w'' [AErr (Ext err)]), w')
             | Inr tokenResp \<Rightarrow>
                 if AccessToken tokenResp = []
                 then (Inl (New ''empty access token in response''), w')
                 else (Inr (AccessToken tokenResp), w'))) = (token_result E r, w')"
  by (cases r) (simp_all add: carry_def failed_def token_result_def readResponseBody_def maxRetries_def)

lemma token_result_ok:
  "\<not> failed r \<Longrightarrow>
     (case ((Some (projr r), None), w') of
        ((_, Some lastError), w') \<Rightarrow>
          (Inl (Errorf ''token request failed after %d attempts: %w''
                  [AInt (int maxRetries), AErr (Ext lastError)]), w')
      | ((None, None), w') \<Rightarrow> (Inl (Panic ''nil pointer dereference''), w')
      | ((Some resp, None), w') \<Rightarrow>
          if StatusCode resp \<noteq> StatusOK then
            (Inl (Errorf ''token endpoint returned %d: %s''
                    [AInt (StatusCode resp),
                     AStr (fst (fst (readResponseBody (Body resp))))]), w')
          else
            (case Decode E (Body resp) of
               Inl err \<Rightarrow>
                 (Inl (Errorf ''failed to decode token response: %w'' [AErr (Ext err)]), w')
             | Inr tokenResp \<Rightarrow>
                 if AccessToken tokenResp = []
                 then (Inl (New ''empty access token in response''), w')
                 else (Inr (AccessToken tokenResp), w'))) = (token_result E r, w')"
  by (cases r) (auto simp add: failed_def token_result_def split: sum.splits)

lemma getOIDCToken_spec:
  assumes "readFile E (Getenv E ''CLIENT_SECRET_FILE'') = Inr secret"
  shows "getOIDCToken E w =
     (let req = form_request E (token_form E secret); rs = replies E req 3 (ext w);
          k = attempts rs
      in (token_result E (rs ! (k - 1)),
          \<lparr>ext = state_after E req k (ext w),
           trace = trace w @ with_delays 1 (replicate k [EvDo req])\<rparr>))"
proof -
  have vals_eq:
    "(if Getenv E ''SCOPE'' \<noteq> []
      then [(''client_id'', [Getenv E ''CLIENT_ID'']), (''client_secret'', [secret]),
            (''grant_type'', [''client_credentials''])] @ [(''scope'', [Getenv E ''SCOPE''])]
      else [(''client_id'', [Getenv E ''CLIENT_ID'']), (''client_secret'', [secret]),
            (''grant_type'', [''client_credentials''])]) = token_form E secret"
    by (simp add: token_form_def)
  define vals where "vals = token_form E secret"
  define rs where "rs = replies E (form_request E vals) 3 (ext w)"
  define r where "r = rs ! (attempts rs - 1)"
  define w' where "w' = \<lparr>ext = state_after E (form_request E vals) (attempts rs) (ext w),
           trace = trace w @ with_delays 1 (replicate (attempts rs) [EvDo (form_request E vals)])\<rparr>"
  have loop: "getOIDCToken_loop E vals 0 (None, None) w =
      ((if failed r then carry r else (Some (projr r), None)), w')"
    unfolding getOIDCToken_loop_spec rs_def r_def w'_def Let_def ..
  have "getOIDCToken E w =
      (case getOIDCToken_loop E vals 0 (None, None) w of
               ((_, Some lastError), w') \<Rightarrow>
                 (Inl (Errorf ''token request failed after %d attempts: %w''
                         [AInt (int maxRetries), AErr (Ext lastError)]), w')
             | ((None, None), w') \<Rightarrow> (Inl (Panic ''nil pointer dereference''), w')
             | ((Some resp, None), w') \<Rightarrow>
                 if StatusCode resp \<noteq> StatusOK then
                   (Inl (Errorf ''token endpoint returned %d: %s''
                           [AInt (StatusCode resp),
                            AStr (fst (fst (readResponseBody (Body resp))))]), w')
                 else
                   (case Decode E (Body resp) of
                      Inl err \<Rightarrow>
                        (Inl (Errorf ''failed to decode token response: %w'' [AErr (Ext err)]),
                         w')
                    | Inr tokenResp \<Rightarrow>
                        if AccessToken tokenResp = []
                        then (Inl (New ''empty access token in response''), w')
                        else (Inr (AccessToken tokenResp), w')))"
    unfolding getOIDCToken_def assms Let_def sum.case vals_eq vals_def
    by (rule refl)
  also have "\<dots> = (token_result E r, w')"
  proof (cases "failed r")
    case True
    show ?thesis
      unfolding loop if_P[OF True] by (rule token_result_carry[OF True])
  next
    case False
    show ?thesis
      unfolding loop if_not_P[OF False] by (rule token_result_ok[OF False])
  qed
  finally show ?thesis
    unfolding r_def w'_def rs_def vals_def Let_def .
qed

lemma length_replies: "length (replies E req n x) = n"
  by (induction n arbitrary: x) simp_all

lemma replies_all_failed:
  assumes "\<And>x req. failed (fst (http_Do E x req))"
  shows "r \<in> set (replies E req n x) \<Longrightarrow> failed r"
  using assms by (induction n arbitrary: x) auto

lemma attempts_all_failed: "\<forall>r\<in>set rs. failed r \<Longrightarrow> attempts rs = length rs"
  by (simp add: attempts_def takeWhile_eq_all_conv[THEN iffD2])

lemma with_delays_three:
  "with_delays (Suc 0) (replicate 3 [e]) = [e, EvSleep (2 * Second), e, EvSleep (4 * Second), e]"
  by (simp add: numeral_3_eq_3 baseRetryDelay_def)

text \<open>
  C2. When the client secret can be read and every answer of the token endpoint is a
  failure (a transport error or a status other than 200), \<open>getOIDCToken\<close> posts the
  request exactly three times, sleeping 2 s and 4 s in between and not after the third,
  and returns an error: it carries the status code of the third answer, or wraps the
  third transport error.
\<close>

theorem getOIDCToken_gives_up_after_three_attempts:
  assumes "readFile E (Getenv E ''CLIENT_SECRET_FILE'') = Inr secret"
    and "\<And>x req. failed (fst (http_Do E x req))"
  shows "getOIDCToken E w =
     (let req = form_request E (token_form E secret); r3 = replies E req 3 (ext w) ! 2
      in (Inl (case r3 of
                 Inl err \<Rightarrow>
                   Errorf ''token request failed after %d attempts: %w'' [AInt 3, AErr (Ext err)]
               | Inr resp \<Rightarrow>
                   Errorf ''token endpoint returned %d: %s'' [AInt (StatusCode resp), AStr []]),
          \<lparr>ext = state_after E req 3 (ext w),
           trace = trace w @ [EvDo req, EvSleep (2 * Second), EvDo req, EvSleep (4 * Second),
                              EvDo req]\<rparr>))"
proof -
  define req where "req = form_request E (token_form E secret)"
  define rs where "rs = replies E req 3 (ext w)"
  have all: "\<forall>r\<in>set rs. failed r"
    unfolding rs_def using replies_all_failed[OF assms(2)] by blast
  have k: "attempts rs = 3"
    using attempts_all_failed[OF all] by (simp add: rs_def length_replies)
  have "rs ! 2 \<in> set rs"
    by (simp add: rs_def length_replies)
  with all have f: "failed (rs ! 2)" by blast
  have res: "token_result E (rs ! 2) =
      Inl (case rs ! 2 of
             Inl err \<Rightarrow>
               Errorf ''token request failed after %d attempts: %w'' [AInt 3, AErr (Ext err)]
           | Inr resp \<Rightarrow>
               Errorf ''token endpoint returned %d: %s'' [AInt (StatusCode resp), AStr []])"
    using f by (cases "rs ! 2") (simp_all add: token_result_def failed_def)
  show ?thesis
    unfolding getOIDCToken_spec[OF assms(1)] Let_def req_def[symmetric] rs_def[symmetric] k
    by (simp add: res with_delays_three)
qed

theorem getOIDCToken_gives_up_after_three_attempts_witness:
  "readFile always_500 (Getenv always_500 ''CLIENT_SECRET_FILE'') = Inr ''s3cret''
   \<and> (\<forall>x req. failed (fst (http_Do always_500 x req)))
   \<and> fst (getOIDCToken always_500 (quiet Map.empty [])) =
       Inl (Errorf ''token endpoint returned %d: %s'' [AInt 500, AStr []])
   \<and> length (trace (snd (getOIDCToken always_500 (quiet Map.empty [])))) = 5"
proof -
  have a: "readFile always_500 (Getenv always_500 ''CLIENT_SECRET_FILE'') = Inr ''s3cret''"
    by (simp add: always_500_def provider_def reference_def readFile_def Getenv_def TrimSpace_def
        utf8_spaces_def)
  have b: "\<And>x req. failed (fst (http_Do always_500 x req))"
    by (simp add: always_500_def failed_def StatusOK_def)
  show ?thesis
    using getOIDCToken_gives_up_after_three_attempts[OF a b, of "quiet Map.empty []"] a b
    by (simp add: Let_def numeral_3_eq_3 always_500_def quiet_def)
qed

lemma attempts_first_ok:
  assumes "n < length rs" and "\<forall>i<n. failed (rs ! i)" and "\<not> failed (rs ! n)"
  shows "attempts rs = n + 1"
proof -
  have "takeWhile failed rs = take n rs"
    using assms by (intro takeWhile_eq_take_P_nth) auto
  then show ?thesis
    using assms(1) by (simp add: attempts_def)
qed

lemma provider_readable:
  "readFile (provider dec) (Getenv (provider dec) ''CLIENT_SECRET_FILE'') = Inr ''s3cret''"
  by (simp add: provider_def reference_def readFile_def Getenv_def TrimSpace_def utf8_spaces_def)

text \<open>
  C10. When the first answer with status 200 comes at attempt \<open>n + 1\<close> (at most the third),
  \<open>getOIDCToken\<close> makes exactly \<open>n + 1\<close> attempts whatever the body of that answer is; the
  body is decoded only after the loop, and a body that cannot be decoded or carries an
  empty access token makes the result an error, with no further attempt.
\<close>

theorem getOIDCToken_stops_at_first_200:
  assumes "readFile E (Getenv E ''CLIENT_SECRET_FILE'') = Inr secret"
    and "rs = replies E (form_request E (token_form E secret)) 3 (ext w)"
    and "n < 3" and "\<forall>i<n. failed (rs ! i)"
    and "rs ! n = Inr resp" and "StatusCode resp = StatusOK"
  shows "getOIDCToken E w =
     ((case Decode E (Body resp) of
         Inl err \<Rightarrow> Inl (Errorf ''failed to decode token response: %w'' [AErr (Ext err)])
       | Inr tokenResp \<Rightarrow>
           if AccessToken tokenResp = [] then Inl (New ''empty access token in response'')
           else Inr (AccessToken tokenResp)),
      \<lparr>ext = state_after E (form_request E (token_form E secret)) (n + 1) (ext w),
       trace = trace w @
         with_delays 1 (replicate (n + 1) [EvDo (form_request E (token_form E secret))])\<rparr>)"
proof -
  have len: "length rs = 3"
    by (simp add: assms(2) length_replies)
  have "\<not> failed (rs ! n)"
    by (simp add: assms(5,6) failed_def)
  then have k: "attempts rs = n + 1"
    using attempts_first_ok[of n rs] assms(3,4) len by simp
  have "token_result E (rs ! n) =
     (case Decode E (Body resp) of
         Inl err \<Rightarrow> Inl (Errorf ''failed to decode token response: %w'' [AErr (Ext err)])
       | Inr tokenResp \<Rightarrow>
           if AccessToken tokenResp = [] then Inl (New ''empty access token in response'')
           else Inr (AccessToken tokenResp))"
    by (simp add: token_result_def assms(5,6))
  then show ?thesis
    unfolding getOIDCToken_spec[OF assms(1)] Let_def assms(2)[symmetric] k
    by simp
qed

theorem getOIDCToken_stops_at_first_200_witness:
  "readFile (provider reject) (Getenv (provider reject) ''CLIENT_SECRET_FILE'') = Inr ''s3cret''
   \<and> fst (getOIDCToken (provider reject)
            (answering [status 500 ''busy'', status 200 ''<html>'', status 200 ''{}'']
               (quiet Map.empty []))) =
       Inl (Errorf ''failed to decode token response: %w''
              [AErr (Ext (ExtError False ''invalid character''))])
   \<and> answers (ext (snd (getOIDCToken (provider reject)
            (answering [status 500 ''busy'', status 200 ''<html>'', status 200 ''{}'']
               (quiet Map.empty []))))) = [status 200 ''{}'']"
proof -
  let ?w = "answering [status 500 ''busy'', status 200 ''<html>'', status 200 ''{}'']
               (quiet Map.empty [])"
  let ?req = "form_request (provider reject) (token_form (provider reject) ''s3cret'')"
  have rs: "replies (provider reject) ?req 3 (ext ?w) =
      [status 500 ''busy'', status 200 ''<html>'', status 200 ''{}'']"
    by (simp add: numeral_3_eq_3 provider_def reference_def srv_Do_def answering_def quiet_def)
  have f: "\<forall>i<1. failed ([status 500 ''busy'', status 200 ''<html>'', status 200 ''{}''] ! i)"
    by (simp add: failed_def status_def StatusOK_def)
  have sa: "answers (state_after (provider reject) ?req (1 + 1) (ext ?w)) = [status 200 ''{}'']"
    by (simp add: provider_def reference_def srv_Do_def answering_def quiet_def)
  have nth: "[status 500 ''busy'', status 200 ''<html>'', status 200 ''{}''] ! 1 =
      Inr \<lparr>StatusCode = 200, Body = Unread (Inr ''<html>''), CloseErr = None\<rparr>"
    by (simp add: status_def)
  have dec: "Decode (provider reject) (Unread (Inr ''<html>'')) =
      Inl (ExtError False ''invalid character'')"
    by (simp add: Decode_def provider_def reference_def reject_def)
  have "getOIDCToken (provider reject) ?w =
      (Inl (Errorf ''failed to decode token response: %w''
              [AErr (Ext (ExtError False ''invalid character''))]),
       \<lparr>ext = state_after (provider reject) ?req (1 + 1) (ext ?w),
        trace = trace ?w @ with_delays 1 (replicate (1 + 1) [EvDo ?req])\<rparr>)"
    using getOIDCToken_stops_at_first_200[OF provider_readable rs[symmetric] _ f nth]
    by (simp add: StatusOK_def dec)
  then show ?thesis
    using provider_readable sa by simp
qed

section \<open>The token request of the single-namespace program\<close>

lemma getOIDCToken_main_go_spec:
  "getOIDCToken_main_go E w =
     (let req = form_request E (token_form E (readFile_main_go E (Getenv E ''CLIENT_SECRET_FILE'')))
      in case http_Do E (ext w) req of
           (Inl err, x) \<Rightarrow>
             (Inl (Errorf ''token request failed: %w'' [AErr (Ext err)]),
              \<lparr>ext = x, trace = trace w @ [EvDo req]\<rparr>)
         | (Inr resp, x) \<Rightarrow>
             ((if StatusCode resp \<noteq> StatusOK then
                 Inl (Errorf ''token endpoint returned %d: %s''
                        [AInt (StatusCode resp),
                         AStr (case Body resp of Unread (Inr data) \<Rightarrow> data | _ \<Rightarrow> [])])
               else
                 (case Decode E (Body resp) of
                    Inl err \<Rightarrow> Inl (Errorf ''failed to decode token response: %w'' [AErr (Ext err)])
                  | Inr tokenResp \<Rightarrow>
                      if AccessToken tokenResp = []
                      then Inl (Errorf ''empty access token in response'' [])
                      else Inr (AccessToken tokenResp))),
              \<lparr>ext = x, trace = trace w @ [EvDo req]\<rparr>))"
  by (auto simp add: getOIDCToken_main_go_def Let_def PostForm_def client_Do_def form_request_def
      token_form_def split: prod.splits sum.splits)

section \<open>When a token is returned\<close>

lemma token_result_Inr:
  "token_result E r = Inr token \<longleftrightarrow>
     (\<exists>resp tokenResp. r = Inr resp \<and> StatusCode resp = StatusOK \<and>
        Decode E (Body resp) = Inr tokenResp \<and> AccessToken tokenResp = token \<and> token \<noteq> [])"
  by (cases r) (auto simp add: token_result_def split: sum.splits)

lemma attempts_pos: "rs \<noteq> [] \<Longrightarrow> 0 < attempts rs"
  by (cases rs) (simp_all add: attempts_def)

lemma attempts_le: "attempts rs \<le> length rs"
  by (simp add: attempts_def)

lemma replies_first:
  "replies E req 3 x ! 0 = fst (http_Do E x req)"
  by (simp add: numeral_3_eq_3)

lemma attempts_first:
  "\<not> failed (fst (http_Do E x req)) \<Longrightarrow> attempts (replies E req 3 x) = 1"
  by (simp add: numeral_3_eq_3 attempts_def)

text \<open>
  C5. \<open>getOIDCToken\<close> returns an access token exactly when the answer to its last attempt
  has status 200 and a body that decodes to a non-empty \<open>access_token\<close>, which is then
  the token returned; the same holds of the single request of the program of main.go. In
  particular a first answer with status 200 and the body \<open>{"access_token":"abc"}\<close>, decoded
  as such, gives \<open>abc\<close>; an empty or missing field gives an error.
\<close>

theorem access_token_iff_status_200_and_non_empty_field:
  \<open>(fst (getOIDCToken E w) = Inr token \<longleftrightarrow>
      (\<exists>secret resp tokenResp.
          readFile E (Getenv E ''CLIENT_SECRET_FILE'') = Inr secret \<and>
          (let rs = replies E (form_request E (token_form E secret)) 3 (ext w)
           in rs ! (attempts rs - 1) = Inr resp) \<and>
          StatusCode resp = StatusOK \<and> Decode E (Body resp) = Inr tokenResp \<and>
          AccessToken tokenResp = token \<and> token \<noteq> []))
   \<and> (fst (getOIDCToken_main_go E w) = Inr token \<longleftrightarrow>
      (\<exists>resp tokenResp.
          fst (http_Do E (ext w)
                 (form_request E
                    (token_form E (readFile_main_go E (Getenv E ''CLIENT_SECRET_FILE''))))) = Inr resp \<and>
          StatusCode resp = StatusOK \<and> Decode E (Body resp) = Inr tokenResp \<and>
          AccessToken tokenResp = token \<and> token \<noteq> []))
   \<and> (readFile E (Getenv E ''CLIENT_SECRET_FILE'') = Inr secret \<longrightarrow>
      fst (http_Do E (ext w) (form_request E (token_form E secret))) = Inr resp \<longrightarrow>
      StatusCode resp = StatusOK \<longrightarrow>
      Body resp = Unread (Inr ''{"access_token":"abc"}'') \<longrightarrow>
      json_Decode E ''{"access_token":"abc"}'' = Inr \<lparr>AccessToken = ''abc''\<rparr> \<longrightarrow>
      fst (getOIDCToken E w) = Inr ''abc'')
   \<and> (readFile E (Getenv E ''CLIENT_SECRET_FILE'') = Inr secret \<longrightarrow>
      fst (http_Do E (ext w) (form_request E (token_form E secret))) = Inr resp \<longrightarrow>
      StatusCode resp = StatusOK \<longrightarrow>
      Decode E (Body resp) = Inr \<lparr>AccessToken = []\<rparr> \<longrightarrow>
      fst (getOIDCToken E w) = Inl (New ''empty access token in response''))\<close>
proof (intro conjI impI)
  show "fst (getOIDCToken E w) = Inr token \<longleftrightarrow>
      (\<exists>secret resp tokenResp.
          readFile E (Getenv E ''CLIENT_SECRET_FILE'') = Inr secret \<and>
          (let rs = replies E (form_request E (token_form E secret)) 3 (ext w)
           in rs ! (attempts rs - 1) = Inr resp) \<and>
          StatusCode resp = StatusOK \<and> Decode E (Body resp) = Inr tokenResp \<and>
          AccessToken tokenResp = token \<and> token \<noteq> [])"
  proof (cases "readFile E (Getenv E ''CLIENT_SECRET_FILE'')")
    case (Inl err)
    then show ?thesis
      by (simp add: getOIDCToken_unreadable)
  next
    case (Inr secret)
    then show ?thesis
      by (simp add: getOIDCToken_spec[OF Inr] Let_def token_result_Inr)
  qed
next
  show "fst (getOIDCToken_main_go E w) = Inr token \<longleftrightarrow>
      (\<exists>resp tokenResp.
          fst (http_Do E (ext w)
                 (form_request E
                    (token_form E (readFile_main_go E (Getenv E ''CLIENT_SECRET_FILE''))))) = Inr resp \<and>
          StatusCode resp = StatusOK \<and> Decode E (Body resp) = Inr tokenResp \<and>
          AccessToken tokenResp = token \<and> token \<noteq> [])"
    unfolding getOIDCToken_main_go_spec Let_def
    by (auto split: prod.splits sum.splits)
next
  assume a: "readFile E (Getenv E ''CLIENT_SECRET_FILE'') = Inr secret"
    and b: "fst (http_Do E (ext w) (form_request E (token_form E secret))) = Inr resp"
    and c: "StatusCode resp = StatusOK"
  have nf: "\<not> failed (fst (http_Do E (ext w) (form_request E (token_form E secret))))"
    by (simp add: b c failed_def)
  have res: "fst (getOIDCToken E w) = token_result E (Inr resp)"
    using b by (simp add: getOIDCToken_spec[OF a] Let_def attempts_first[OF nf] replies_first)
  {
    assume "Body resp = Unread (Inr ''{\"access_token\":\"abc\"}'')"
      and "json_Decode E ''{\"access_token\":\"abc\"}'' = Inr \<lparr>AccessToken = ''abc''\<rparr>"
    then show "fst (getOIDCToken E w) = Inr ''abc''"
      by (simp add: res token_result_def c Decode_def)
  }
  {
    assume "Decode E (Body resp) = Inr \<lparr>AccessToken = []\<rparr>"
    then show "fst (getOIDCToken E w) = Inl (New ''empty access token in response'')"
      by (simp add: res token_result_def c)
  }
qed

theorem access_token_iff_status_200_and_non_empty_field_witness:
  \<open>readFile (provider decode_abc) (Getenv (provider decode_abc) ''CLIENT_SECRET_FILE'') =
     Inr ''s3cret''
   \<and> json_Decode (provider decode_abc) ''{"access_token":"abc"}'' = Inr \<lparr>AccessToken = ''abc''\<rparr>
   \<and> fst (getOIDCToken (provider decode_abc)
            (answering [status 200 ''{"access_token":"abc"}''] (quiet Map.empty []))) = Inr ''abc''\<close>
proof -
  let ?E = "provider decode_abc"
  let ?w = "answering [status 200 abc_body] (quiet Map.empty [])"
  let ?resp = "\<lparr>StatusCode = 200, Body = Unread (Inr abc_body), CloseErr = None\<rparr>"
  have d: "json_Decode ?E abc_body = Inr \<lparr>AccessToken = ''abc''\<rparr>"
    by (simp add: provider_def reference_def decode_abc_def)
  have r: "fst (http_Do ?E (ext ?w) (form_request ?E (token_form ?E ''s3cret''))) = Inr ?resp"
    by (simp add: provider_def reference_def srv_Do_def answering_def quiet_def status_def)
  have "fst (getOIDCToken ?E ?w) = Inr ''abc''"
    using access_token_iff_status_200_and_non_empty_field[of ?E ?w "''abc''" "''s3cret''" ?resp]
      provider_readable[of decode_abc] r d
    by (simp add: StatusOK_def abc_body_def)
  then show ?thesis
    using provider_readable[of decode_abc] d by (simp add: abc_body_def)
qed

section \<open>Retries and the delays between them\<close>

lemma withRetries_loop_done:
  "withRetries_loop fn 3 lastError w =
     (Some (Errorf ''failed after %d attempts: %w''
              [AInt 3, (case lastError of None \<Rightarrow> ANil | Some e \<Rightarrow> AErr e)]), w)"
  by (subst withRetries_loop.simps) (simp add: maxRetries_def)

lemma withRetries_loop_step:
  "i < 3 \<Longrightarrow> withRetries_loop fn i lastError w =
     (case fn w of
        (None, w1) \<Rightarrow> (None, w1)
      | (Some err, w1) \<Rightarrow>
          withRetries_loop fn (i + 1) (Some err)
            (if i < 2 then Sleep (int (i + 1) * baseRetryDelay) w1 else w1))"
  by (subst withRetries_loop.simps) (simp add: maxRetries_def Let_def split: prod.splits option.splits)

lemma withRetries_unrolled:
  "withRetries fn w =
     (case fn w of
        (None, w1) \<Rightarrow> (None, w1)
      | (Some err1, w1) \<Rightarrow>
         (case fn (Sleep (2 * Second) w1) of
            (None, w2) \<Rightarrow> (None, w2)
          | (Some err2, w2) \<Rightarrow>
             (case fn (Sleep (4 * Second) w2) of
                (None, w3) \<Rightarrow> (None, w3)
              | (Some err3, w3) \<Rightarrow>
                  (Some (Errorf ''failed after %d attempts: %w'' [AInt 3, AErr err3]), w3))))"
  unfolding withRetries_def
  by (simp add: withRetries_loop_step withRetries_loop_done[unfolded numeral_3_eq_3]
      baseRetryDelay_def split: prod.splits option.splits)

lemma attempts_replies_bounds:
  "1 \<le> attempts (replies E req 3 x) \<and> attempts (replies E req 3 x) \<le> 3"
  using attempts_pos[of "replies E req 3 x"] attempts_le[of "replies E req 3 x"]
  by (simp add: length_replies numeral_3_eq_3)

lemma with_delays_take:
  assumes "Suc 0 \<le> k" and "k \<le> 3"
  shows "with_delays (Suc 0) (replicate k [e]) =
           take (2 * k - Suc 0) [e, EvSleep (2 * Second), e, EvSleep (4 * Second), e]"
proof -
  from assms have "k = 1 \<or> k = 2 \<or> k = 3" by arith
  then show ?thesis
    by (auto simp add: numeral_3_eq_3 numeral_2_eq_2 baseRetryDelay_def)
qed

text \<open>
  C8. Both retried operations sleep \<open>i\<close> times the base delay of 2 s between the failed
  attempt \<open>i\<close> and attempt \<open>i + 1\<close>, and never after the last attempt. Of \<open>getOIDCToken\<close>
  with a readable secret: its events are the first \<open>2k - 1\<close> of post, sleep 2 s, post,
  sleep 4 s, post, where \<open>k\<close> (from 1 to 3) is the number of attempts. Of \<open>withRetries\<close>:
  the operation runs, after a failure there is a sleep of 2 s and it runs again, after a
  second failure a sleep of 4 s and a third run, whose failure is returned at once.
\<close>

theorem delays_between_attempts:
  "(readFile E (Getenv E ''CLIENT_SECRET_FILE'') = Inr secret \<longrightarrow>
      (let req = form_request E (token_form E secret);
           k = attempts (replies E req 3 (ext w))
       in 1 \<le> k \<and> k \<le> 3 \<and>
          trace (snd (getOIDCToken E w)) =
            trace w @ take (2 * k - 1)
              [EvDo req, EvSleep (2 * Second), EvDo req, EvSleep (4 * Second), EvDo req]))
   \<and> withRetries fn v =
       (case fn v of
          (None, v1) \<Rightarrow> (None, v1)
        | (Some err1, v1) \<Rightarrow>
           (case fn (Sleep (2 * Second) v1) of
              (None, v2) \<Rightarrow> (None, v2)
            | (Some err2, v2) \<Rightarrow>
               (case fn (Sleep (4 * Second) v2) of
                  (None, v3) \<Rightarrow> (None, v3)
                | (Some err3, v3) \<Rightarrow>
                    (Some (Errorf ''failed after %d attempts: %w'' [AInt 3, AErr err3]), v3))))
   \<and> baseRetryDelay = 2 * Second \<and> Second = 1000000000"
proof (intro conjI impI)
  assume a: "readFile E (Getenv E ''CLIENT_SECRET_FILE'') = Inr secret"
  show "let req = form_request E (token_form E secret);
           k = attempts (replies E req 3 (ext w))
       in 1 \<le> k \<and> k \<le> 3 \<and>
          trace (snd (getOIDCToken E w)) =
            trace w @ take (2 * k - 1)
              [EvDo req, EvSleep (2 * Second), EvDo req, EvSleep (4 * Second), EvDo req]"
  proof -
    define k where "k = attempts (replies E (form_request E (token_form E secret)) 3 (ext w))"
    have b: "Suc 0 \<le> k" "k \<le> 3"
      using attempts_replies_bounds[of E "form_request E (token_form E secret)" "ext w"]
      by (simp_all add: k_def)
    show ?thesis
      unfolding getOIDCToken_spec[OF a] Let_def k_def[symmetric]
      using b by (simp add: with_delays_take[OF b] del: take_Cons_numeral)
  qed
next
  show "withRetries fn v =
       (case fn v of
          (None, v1) \<Rightarrow> (None, v1)
        | (Some err1, v1) \<Rightarrow>
           (case fn (Sleep (2 * Second) v1) of
              (None, v2) \<Rightarrow> (None, v2)
            | (Some err2, v2) \<Rightarrow>
               (case fn (Sleep (4 * Second) v2) of
                  (None, v3) \<Rightarrow> (None, v3)
                | (Some err3, v3) \<Rightarrow>
                    (Some (Errorf ''failed after %d attempts: %w'' [AInt 3, AErr err3]), v3))))"
    by (rule withRetries_unrolled)
qed (simp_all add: baseRetryDelay_def Second_def)

theorem delays_between_attempts_witness:
  "readFile (provider decode_abc) (Getenv (provider decode_abc) ''CLIENT_SECRET_FILE'') =
     Inr ''s3cret''
   \<and> trace (snd (getOIDCToken (provider decode_abc)
                   (answering [status 500 ''busy'', status 500 ''busy'', status 200 abc_body]
                      (quiet Map.empty [])))) =
       [EvDo (form_request (provider decode_abc) (token_form (provider decode_abc) ''s3cret'')),
        EvSleep 2000000000,
        EvDo (form_request (provider decode_abc) (token_form (provider decode_abc) ''s3cret'')),
        EvSleep 4000000000,
        EvDo (form_request (provider decode_abc) (token_form (provider decode_abc) ''s3cret''))]"
proof -
  let ?E = "provider decode_abc"
  let ?w = "answering [status 500 ''busy'', status 500 ''busy'', status 200 abc_body]
              (quiet Map.empty [])"
  let ?req = "form_request ?E (token_form ?E ''s3cret'')"
  have rs: "replies ?E ?req 3 (ext ?w) =
      [status 500 ''busy'', status 500 ''busy'', status 200 abc_body]"
    by (simp add: numeral_3_eq_3 provider_def reference_def srv_Do_def answering_def quiet_def)
  have k: "attempts (replies ?E ?req 3 (ext ?w)) = 3"
    unfolding rs by (simp add: attempts_def failed_def status_def StatusOK_def)
  have "trace (snd (getOIDCToken ?E ?w)) =
      trace ?w @ take (2 * 3 - 1)
        [EvDo ?req, EvSleep (2 * Second), EvDo ?req, EvSleep (4 * Second), EvDo ?req]"
    using delays_between_attempts[of ?E "''s3cret''" ?w, THEN conjunct1]
      provider_readable[of decode_abc]
    by (simp add: Let_def k del: take_Cons_numeral)
  then show ?thesis
    using provider_readable[of decode_abc]
    by (simp add: Second_def answering_def quiet_def)
qed

section \<open>The cluster-wide loop\<close>

lemma manageSecretsClusterWide_loop_spec:
  "manageSecretsClusterWide_loop E token nss (errorList, successCount) w =
     ((errorList @ errors_of (outcomes E token nss w),
       successCount + length (filter (\<lambda>(ns, r). r = None) (outcomes E token nss w))),
      world_after E token nss w)"
proof (induction nss arbitrary: errorList successCount w)
  case Nil
  show ?case by simp
next
  case (Cons ns rest)
  show ?case
    by (cases "withRetries (manageNamespaceSecret E token ns) w")
       (auto simp add: Cons.IH split: option.splits)
qed

lemma length_errors_of:
  "length (errors_of os) = length (filter (\<lambda>(ns, r). r \<noteq> None) os)"
  by (induction os rule: errors_of.induct) simp_all

lemma map_fst_outcomes: "map fst (outcomes E token nss w) = nss"
  by (induction nss arbitrary: w) simp_all

lemma manageNamespaceSecret_trace:
  "\<exists>evs. trace (snd (manageNamespaceSecret E token ns w)) = trace w @ EvGet ns secretName # evs"
  by (auto simp add: manageNamespaceSecret_def api_Get_def api_Create_def api_Update_def Let_def
      split: prod.splits sum.splits)

lemma withRetries_trace:
  "\<exists>evs. trace (snd (withRetries (manageNamespaceSecret E token ns) w)) =
     trace w @ EvGet ns secretName # evs"
proof -
  obtain r1 w1 where 1: "manageNamespaceSecret E token ns w = (r1, w1)" by force
  obtain evs where t: "trace w1 = trace w @ EvGet ns secretName # evs"
    using manageNamespaceSecret_trace[of E token ns w] 1 by auto
  show ?thesis
  proof (cases r1)
    case None
    then show ?thesis using 1 t by (simp add: withRetries_unrolled)
  next
    case (Some e1)
    obtain r2 w2 where 2: "manageNamespaceSecret E token ns (Sleep (2 * Second) w1) = (r2, w2)"
      by force
    obtain evs2 where t2: "trace w2 = trace (Sleep (2 * Second) w1) @ EvGet ns secretName # evs2"
      using manageNamespaceSecret_trace[of E token ns "Sleep (2 * Second) w1"] 2 by auto
    show ?thesis
    proof (cases r2)
      case None
      then show ?thesis using 1 2 t t2 Some by (simp add: withRetries_unrolled Sleep_def)
    next
      case e2: (Some e2)
      obtain r3 w3 where 3: "manageNamespaceSecret E token ns (Sleep (4 * Second) w2) = (r3, w3)"
        by force
      obtain evs3 where t3: "trace w3 = trace (Sleep (4 * Second) w2) @ EvGet ns secretName # evs3"
        using manageNamespaceSecret_trace[of E token ns "Sleep (4 * Second) w2"] 3 by auto
      show ?thesis
        using 1 2 3 t t2 t3 Some e2
        by (cases r3) (simp_all add: withRetries_unrolled Sleep_def)
    qed
  qed
qed

lemma world_after_trace: "\<exists>evs. trace (world_after E token nss w) = trace w @ evs"
proof (induction nss arbitrary: w)
  case Nil
  show ?case by simp
next
  case (Cons ns rest)
  obtain evs where "trace (snd (withRetries (manageNamespaceSecret E token ns) w)) =
     trace w @ EvGet ns secretName # evs"
    using withRetries_trace by blast
  moreover obtain evs' where "trace (world_after E token (ns # rest) w) =
     trace (snd (withRetries (manageNamespaceSecret E token ns) w)) @ evs'"
    using Cons.IH[of "snd (withRetries (manageNamespaceSecret E token ns) w)"] by auto
  ultimately show ?case by simp
qed

lemma world_after_attempted:
  "ns \<in> set nss \<Longrightarrow> EvGet ns secretName \<in> set (trace (world_after E token nss w))"
proof (induction nss arbitrary: w)
  case Nil
  then show ?case by simp
next
  case (Cons a rest)
  let ?w1 = "snd (withRetries (manageNamespaceSecret E token a) w)"
  show ?case
  proof (cases "ns = a")
    case True
    obtain evs where "trace ?w1 = trace w @ EvGet a secretName # evs"
      using withRetries_trace by blast
    moreover obtain evs' where "trace (world_after E token rest ?w1) = trace ?w1 @ evs'"
      using world_after_trace by blast
    ultimately show ?thesis using True by simp
  next
    case False
    then have "ns \<in> set rest" using Cons.prems by simp
    then show ?thesis using Cons.IH[of ?w1] by simp
  qed
qed

text \<open>
  C3. Once the namespaces are listed, \<open>manageSecretsClusterWide\<close> runs the retried
  reconciliation for every namespace of the list, in order, whatever the outcome of the
  others (every namespace has an outcome, and a Get call for it is among the events); the
  error list holds one error for each namespace whose reconciliation failed; and the
  result is an error, listing them, exactly when that list is not empty.
\<close>

theorem aggregate_and_continue:
  assumes "getK8sConfig E = None" and "NewForConfig E = None"
    and "listNamespaces E w = (Inr nss, w1)"
  shows "let os = outcomes E token nss w1; errorList = errors_of os
         in manageSecretsClusterWide E token w =
              ((if errorList = [] then None
                else Some (Errorf ''completed with %d errors: %v''
                             [AInt (int (length errorList)), AErrs errorList])),
               world_after E token nss w1)
            \<and> map fst os = nss
            \<and> (\<forall>ns\<in>set nss. EvGet ns secretName \<in> set (trace (world_after E token nss w1)))
            \<and> length errorList = length (filter (\<lambda>(ns, r). r \<noteq> None) os)
            \<and> (fst (manageSecretsClusterWide E token w) \<noteq> None \<longleftrightarrow> errorList \<noteq> [])"
proof -
  have run: "manageSecretsClusterWide E token w =
      ((if errors_of (outcomes E token nss w1) = [] then None
        else Some (Errorf ''completed with %d errors: %v''
                     [AInt (int (length (errors_of (outcomes E token nss w1)))),
                      AErrs (errors_of (outcomes E token nss w1))])),
       world_after E token nss w1)"
    using assms
    by (simp add: manageSecretsClusterWide_def manageSecretsClusterWide_loop_spec)
  show ?thesis
    unfolding Let_def
    using world_after_attempted[of _ nss E token w1]
    by (simp add: run map_fst_outcomes length_errors_of)
qed

theorem aggregate_and_continue_witness:
  "getK8sConfig (provider reject) = None \<and> NewForConfig (provider reject) = None
   \<and> fst (listNamespaces (provider reject) cluster_abc) = Inr [''a'', ''b'', ''c'']
   \<and> fst (manageSecretsClusterWide (provider reject) ''t1'' cluster_abc) =
       Some (Errorf ''completed with %d errors: %v''
               [AInt 1,
                AErrs [Errorf ''namespace %s: %w''
                         [AStr ''b'',
                          AErr (Errorf ''failed after %d attempts: %w''
                                  [AInt 3, AErr (Ext forbidden)])]]])
   \<and> map fst (outcomes (provider reject) ''t1'' [''a'', ''b'', ''c'']
                 (snd (listNamespaces (provider reject) cluster_abc))) = [''a'', ''b'', ''c'']"
proof -
  let ?E = "provider reject"
  let ?w1 = "\<lparr>ext = \<lparr>objects = Map.empty, cluster = [''a'', ''b'', ''c''],
                       faults = [None, None, Some forbidden, Some forbidden, Some forbidden],
                       answers = [], signalled = False, timed_out = False\<rparr>,
               trace = [EvList]\<rparr>"
  have c: "getK8sConfig ?E = None" "NewForConfig ?E = None"
    by (simp_all add: getK8sConfig_def provider_def reference_def)
  have l: "listNamespaces ?E cluster_abc = (Inr [''a'', ''b'', ''c''], ?w1)"
    by (simp add: listNamespaces_def api_List_def provider_def reference_def srv_List_def
        next_fault_def cluster_abc_def failing_def quiet_def)
  have os: "outcomes ?E ''t1'' [''a'', ''b'', ''c''] ?w1 =
      [(''a'', None),
       (''b'', Some (Errorf ''failed after %d attempts: %w'' [AInt 3, AErr (Ext forbidden)])),
       (''c'', None)]"
    by (simp add: withRetries_unrolled manageNamespaceSecret_def api_Get_def api_Create_def
        provider_def reference_def srv_Get_def srv_Create_def next_fault_def Let_def Sleep_def
        not_found_def forbidden_def)
  show ?thesis
    using aggregate_and_continue[OF c l, of "''t1''", unfolded Let_def os] c l
    by (simp add: os)
qed

section \<open>Fail-fast processing of the target namespaces\<close>

text \<open>
  C4. When the namespaces before \<open>ns\<close> in the list have been processed without failure
  and the operation on \<open>ns\<close> fails (for any reason, a timeout included),
  \<open>processSecretsInNamespaces\<close> stops there: the process exits with code 1, or the function
  returns the cancellation error when the signal context is cancelled; the world is left
  as the failed operation left it, so nothing is attempted for any later namespace.
\<close>

theorem fail_fast:
  assumes "processSecretsInNamespaces E pre sName sKey accessToken w = (Return None, w1)"
    and "\<not> ctx_Done E (ext w1)"
    and "createOrUpdateSecret E ns sName sKey accessToken w1 = (Some err, w2)"
  shows "processSecretsInNamespaces E (pre @ ns # post) sName sKey accessToken w =
           ((if DeadlineExceeded E (ext w2) then Exit 1
             else if ctx_Done E (ext w2) then Return (Some Canceled)
             else Exit 1), w2)"
  using assms
proof (induction pre arbitrary: w)
  case Nil
  then show ?case by simp
next
  case (Cons a pre)
  show ?case
  proof (cases "ctx_Done E (ext w)")
    case True
    then show ?thesis using Cons.prems(1) by simp
  next
    case False
    obtain r wa where step: "createOrUpdateSecret E a sName sKey accessToken w = (r, wa)"
      by force
    show ?thesis
    proof (cases r)
      case None
      then have "processSecretsInNamespaces E pre sName sKey accessToken wa = (Return None, w1)"
        using Cons.prems(1) False step by simp
      then show ?thesis
        using Cons.IH[OF _ Cons.prems(2,3)] False step None by simp
    next
      case (Some e)
      then show ?thesis
        using Cons.prems(1) False step by (simp split: if_splits)
    qed
  qed
qed

theorem fail_fast_witness:
  "processSecretsInNamespaces (provider reject) [''a''] ''oidc-token-secret'' ''token'' ''t1''
      cluster_abc_patch =
     (Return None,
      snd (processSecretsInNamespaces (provider reject) [''a''] ''oidc-token-secret'' ''token''
             ''t1'' cluster_abc_patch))
   \<and> fst (createOrUpdateSecret (provider reject) ''b'' ''oidc-token-secret'' ''token'' ''t1''
             (snd (processSecretsInNamespaces (provider reject) [''a''] ''oidc-token-secret''
                     ''token'' ''t1'' cluster_abc_patch))) \<noteq> None
   \<and> fst (processSecretsInNamespaces (provider reject) [''a'', ''b'', ''c'']
             ''oidc-token-secret'' ''token'' ''t1'' cluster_abc_patch) = Exit 1
   \<and> filter (\<lambda>e. case e of EvGet namespace name \<Rightarrow> True | _ \<Rightarrow> False)
        (trace (snd (processSecretsInNamespaces (provider reject) [''a'', ''b'', ''c'']
                       ''oidc-token-secret'' ''token'' ''t1'' cluster_abc_patch))) =
       [EvGet ''a'' ''oidc-token-secret'', EvGet ''b'' ''oidc-token-secret'']"
proof -
  let ?E = "provider reject"
  let ?new = "\<lparr>ObjectMeta = \<lparr>Name = ''oidc-token-secret'', Namespace = ''a'', Labels = Map.empty\<rparr>,
               Type = SecretTypeOpaque, Data = [''token'' \<mapsto> ''t1''], StringData = Map.empty\<rparr>"
  let ?w1 = "\<lparr>ext = \<lparr>objects = [(''a'', ''oidc-token-secret'') \<mapsto> admit ''a'' ?new],
                       cluster = [''a'', ''b'', ''c''], faults = [Some forbidden],
                       answers = [], signalled = False, timed_out = False\<rparr>,
               trace = [EvGet ''a'' ''oidc-token-secret'', EvCreate ''a'' ?new]\<rparr>"
  let ?w2 = "\<lparr>ext = \<lparr>objects = [(''a'', ''oidc-token-secret'') \<mapsto> admit ''a'' ?new],
                       cluster = [''a'', ''b'', ''c''], faults = [],
                       answers = [], signalled = False, timed_out = False\<rparr>,
               trace = [EvGet ''a'' ''oidc-token-secret'', EvCreate ''a'' ?new,
                        EvGet ''b'' ''oidc-token-secret'']\<rparr>"
  have d: "\<not> ctx_Done ?E (ext cluster_abc_patch)" "\<not> ctx_Done ?E (ext ?w1)"
    "\<not> ctx_Done ?E (ext ?w2)" "\<not> DeadlineExceeded ?E (ext ?w2)"
    by (simp_all add: provider_def reference_def cluster_abc_patch_def failing_def quiet_def)
  have a: "createOrUpdateSecret ?E ''a'' ''oidc-token-secret'' ''token'' ''t1'' cluster_abc_patch
      = (None, ?w1)"
    by (simp add: createOrUpdateSecret_def api_Get_def api_Create_def provider_def reference_def
        srv_Get_def srv_Create_def next_fault_def not_found_def cluster_abc_patch_def failing_def
        quiet_def Let_def)
  have p: "processSecretsInNamespaces ?E [''a''] ''oidc-token-secret'' ''token'' ''t1''
      cluster_abc_patch = (Return None, ?w1)"
    using d(1) by (simp add: a)
  have b: "createOrUpdateSecret ?E ''b'' ''oidc-token-secret'' ''token'' ''t1'' ?w1 =
      (Some (Errorf ''failed to get secret '%s' in namespace '%s': %w''
               [AStr ''oidc-token-secret'', AStr ''b'', AErr (Ext forbidden)]), ?w2)"
    by (simp add: createOrUpdateSecret_def api_Get_def provider_def reference_def
        srv_Get_def next_fault_def forbidden_def Let_def)
  have res: "processSecretsInNamespaces ?E [''a'', ''b'', ''c''] ''oidc-token-secret'' ''token''
      ''t1'' cluster_abc_patch = (Exit 1, ?w2)"
    using fail_fast[OF p d(2) b, of "[''c'']"] d(3,4)
    by (simp del: processSecretsInNamespaces.simps)
  show ?thesis
    by (simp add: res p b del: processSecretsInNamespaces.simps)
qed

section \<open>The target namespaces\<close>

lemma trim_loop_spec:
  "trim_loop xs i = take i xs @ map TrimSpace (drop i xs)"
proof (induction xs i rule: trim_loop.induct)
  case (1 xs i)
  show ?case
  proof (cases "i < length xs")
    case True
    then have "trim_loop xs i = trim_loop (xs[i := TrimSpace (xs ! i)]) (i + 1)"
      by (subst trim_loop.simps) simp
    also have "\<dots> = take (i + 1) (xs[i := TrimSpace (xs ! i)])
                     @ map TrimSpace (drop (i + 1) (xs[i := TrimSpace (xs ! i)]))"
      using "1.IH"[OF True] .
    also have "\<dots> = take i xs @ map TrimSpace (drop i xs)"
      using True by (simp add: take_Suc_conv_app_nth Cons_nth_drop_Suc[symmetric])
    finally show ?thesis .
  next
    case False
    then show ?thesis by (subst trim_loop.simps) simp
  qed
qed

lemma nonEmpty_loop_spec:
  "nonEmpty_loop xs acc = acc @ filter (\<lambda>ns. ns \<noteq> []) xs"
  by (induction xs arbitrary: acc) simp_all

lemma Split_example:
  "Split ''ns1, ,ns2,'' CHR '','' = [''ns1'', '' '', ''ns2'', '''']"
  by simp

lemma TrimSpace_examples:
  "TrimSpace ''ns1'' = ''ns1''" "TrimSpace '' '' = []" "TrimSpace ''ns2'' = ''ns2''"
  "TrimSpace [] = []"
  by (simp_all add: TrimSpace_def utf8_spaces_def)

lemma namespacesToProcess_explicit:
  assumes "Getenv E TargetNamespacesEnvVar \<noteq> []"
  shows "namespacesToProcess E w =
     (Return (Some (filter (\<lambda>ns. ns \<noteq> [])
                      (map TrimSpace (Split (Getenv E TargetNamespacesEnvVar) CHR '','')))),
      w)"
  using assms
  by (simp add: namespacesToProcess_def trim_loop_spec nonEmpty_loop_spec del: Split.simps)

text \<open>
  C6. When \<open>TARGET_NAMESPACES\<close> is set and not empty, the namespaces to process are the
  pieces of its value between commas, each trimmed of white space, without the empty
  ones, in their order and with their repetitions; the cluster is not asked (the world is
  unchanged). The value \<open>ns1, ,ns2,\<close> gives ns1 and ns2.
\<close>

theorem explicit_namespaces:
  "(Getenv E TargetNamespacesEnvVar \<noteq> [] \<longrightarrow>
      namespacesToProcess E w =
        (Return (Some (filter (\<lambda>ns. ns \<noteq> [])
                         (map TrimSpace (Split (Getenv E TargetNamespacesEnvVar) CHR '','')))),
         w))
   \<and> filter (\<lambda>ns. ns \<noteq> []) (map TrimSpace (Split ''ns1, ,ns2,'' CHR '','')) = [''ns1'', ''ns2'']"
  by (simp add: namespacesToProcess_explicit Split_example TrimSpace_examples del: Split.simps)

theorem explicit_namespaces_witness:
  "Getenv (targeting ''ns1, ,ns2,'') TargetNamespacesEnvVar \<noteq> []
   \<and> namespacesToProcess (targeting ''ns1, ,ns2,'') (quiet Map.empty [''default'']) =
       (Return (Some [''ns1'', ''ns2'']), quiet Map.empty [''default''])"
proof -
  have g: "Getenv (targeting ''ns1, ,ns2,'') TargetNamespacesEnvVar = ''ns1, ,ns2,''"
    by (simp add: targeting_def reference_def Getenv_def TargetNamespacesEnvVar_def)
  show ?thesis
    using explicit_namespaces[of "targeting ''ns1, ,ns2,''" "quiet Map.empty [''default'']"]
    by (simp add: g del: Split.simps)
qed

text \<open>
  C7. When the required variables are set, the token is fetched, the Kubernetes client is
  built, and \<open>TARGET_NAMESPACES\<close> is not empty but has no piece left after trimming,
  \<open>main\<close> returns (exit code 0) with the world as the token request left it: no call to the
  API server, neither a listing nor an operation on a Secret.
\<close>

theorem empty_explicit_list_is_no_op:
  assumes "Getenv E ''OIDC_TOKEN_URL'' \<noteq> []" and "Getenv E ''OIDC_CLIENT_ID'' \<noteq> []"
    and "Getenv E ''OIDC_CLIENT_SECRET'' \<noteq> []"
    and "fetchOIDCToken E (Getenv E ''OIDC_TOKEN_URL'') (Getenv E ''OIDC_CLIENT_ID'')
           (Getenv E ''OIDC_CLIENT_SECRET'') (getEnv E ''OIDC_SCOPES'' defaultScopes) w =
         ((accessToken, None), w1)"
    and "getKubeClient E = None"
    and "Getenv E TargetNamespacesEnvVar \<noteq> []"
    and "filter (\<lambda>ns. ns \<noteq> [])
           (map TrimSpace (Split (Getenv E TargetNamespacesEnvVar) CHR '','')) = []"
  shows "main E w = (0, w1)"
  using assms namespacesToProcess_explicit[of E w1]
  by (simp add: main_def getEnvOrDie_def Let_def del: Split.simps)

theorem empty_explicit_list_is_no_op_witness:
  "Getenv (targeting '' , ,'') TargetNamespacesEnvVar \<noteq> []
   \<and> filter (\<lambda>ns. ns \<noteq> [])
        (map TrimSpace (Split (Getenv (targeting '' , ,'') TargetNamespacesEnvVar) CHR '','')) = []
   \<and> fst (main (targeting '' , ,'')
             (answering [status 200 abc_body] (quiet Map.empty [''default'']))) = 0
   \<and> length (trace (snd (main (targeting '' , ,'')
             (answering [status 200 abc_body] (quiet Map.empty [''default'']))))) = 1"
proof -
  let ?E = "targeting '' , ,''"
  let ?w = "answering [status 200 abc_body] (quiet Map.empty [''default''])"
  let ?req = "\<lparr>Method = ''POST'', URL = ''https://idp/token'',
                ContentType = ''application/x-www-form-urlencoded'',
                Form = [(''grant_type'', [''client_credentials'']), (''client_id'', [''fetcher'']),
                        (''client_secret'', [''s3cret'']), (''scope'', [''openid''])]\<rparr>"
  let ?w1 = "\<lparr>ext = \<lparr>objects = Map.empty, cluster = [''default''], faults = [], answers = [],
                       signalled = False, timed_out = False\<rparr>,
               trace = [EvDo ?req]\<rparr>"
  have g: "Getenv ?E ''OIDC_TOKEN_URL'' = ''https://idp/token''"
    "Getenv ?E ''OIDC_CLIENT_ID'' = ''fetcher''" "Getenv ?E ''OIDC_CLIENT_SECRET'' = ''s3cret''"
    "Getenv ?E TargetNamespacesEnvVar = '' , ,''" "getEnv ?E ''OIDC_SCOPES'' defaultScopes = ''openid''"
    by (simp_all add: targeting_def reference_def Getenv_def getEnv_def TargetNamespacesEnvVar_def
        defaultScopes_def)
  have f: "fetchOIDCToken ?E ''https://idp/token'' ''fetcher'' ''s3cret'' ''openid'' ?w =
      ((''abc'', None), ?w1)"
    by (simp add: fetchOIDCToken_def client_Do_def targeting_def reference_def srv_Do_def
        answering_def quiet_def status_def StatusOK_def Decode_def decode_abc_def Let_def)
  have k: "getKubeClient ?E = None"
    by (simp add: getKubeClient_def targeting_def reference_def)
  have e: "filter (\<lambda>ns. ns \<noteq> []) (map TrimSpace (Split '' , ,'' CHR '','')) = []"
    by (simp add: TrimSpace_def utf8_spaces_def)
  have "main ?E ?w = (0, ?w1)"
    using empty_explicit_list_is_no_op[of ?E ?w "''abc''" ?w1] g f k e
    by (simp del: Split.simps)
  then show ?thesis
    using g e by (simp del: Split.simps)
qed

section \<open>Base64 decoding inverts encoding\<close>

lemma byte_of_char: "byte (of_char c) = c"
proof -
  have "byte n = char_of n" for n
    by (simp add: byte_def char_of_def bit_iff_odd)
  then show ?thesis by simp
qed

lemma of_char_bound: "(of_char c :: nat) < 256"
proof -
  have "(of_char c :: nat) mod 256 = of_char c" by simp
  then show ?thesis
    by (metis mod_less_divisor zero_less_numeral)
qed

lemma position_nth:
  "distinct xs \<Longrightarrow> i < length xs \<Longrightarrow> position xs (xs ! i) = Some i"
proof (induction xs arbitrary: i)
  case Nil
  then show ?case by simp
next
  case (Cons x xs)
  then show ?case by (cases i) auto
qed

lemma length_encodeStd: "length encodeStd = 64"
  by (simp add: encodeStd_def)

lemma distinct_encodeStd: "distinct encodeStd"
  by (simp add: encodeStd_def)

lemma pad_not_in_encodeStd: "CHR ''='' \<notin> set encodeStd"
  by (simp add: encodeStd_def)

lemma position_encodeStd: "i < 64 \<Longrightarrow> position encodeStd (encodeStd ! i) = Some i"
  by (simp add: position_nth distinct_encodeStd length_encodeStd)

lemma encodeStd_not_pad: "i < 64 \<Longrightarrow> encodeStd ! i = CHR ''='' \<Longrightarrow> False"
proof -
  assume "i < 64" and "encodeStd ! i = CHR ''=''"
  then have "CHR ''='' \<in> set encodeStd"
    using nth_mem[of i encodeStd] by (simp add: length_encodeStd)
  then show False
    using pad_not_in_encodeStd by simp
qed


lemma decode_pad2:
  assumes "i0 < 64" and "i1 < 64" and "i1 mod 16 = 0"
  shows "DecodeString [encodeStd ! i0, encodeStd ! i1, CHR ''='', CHR ''='']
         = Some [byte ((i0 * 64 + i1) div 16)]"
  using assms by (simp add: position_encodeStd)

lemma decode_pad1:
  assumes "i0 < 64" and "i1 < 64" and "i2 < 64" and "i2 mod 4 = 0"
  shows "DecodeString [encodeStd ! i0, encodeStd ! i1, encodeStd ! i2, CHR ''='']
         = Some [byte (((i0 * 64 + i1) * 64 + i2) div 4 div 256),
                 byte (((i0 * 64 + i1) * 64 + i2) div 4 mod 256)]"
proof -
  have "encodeStd ! i2 \<noteq> CHR ''=''"
    using encodeStd_not_pad[OF assms(3)] by blast
  then show ?thesis
    using assms by (simp add: position_encodeStd Let_def)
qed

lemma decode_full:
  assumes "i0 < 64" and "i1 < 64" and "i2 < 64" and "i3 < 64"
    and "DecodeString rest = Some tail"
  shows "DecodeString (encodeStd ! i0 # encodeStd ! i1 # encodeStd ! i2 # encodeStd ! i3 # rest)
         = Some (byte ((((i0 * 64 + i1) * 64 + i2) * 64 + i3) div 65536)
                 # byte ((((i0 * 64 + i1) * 64 + i2) * 64 + i3) div 256 mod 256)
                 # byte ((((i0 * 64 + i1) * 64 + i2) * 64 + i3) mod 256) # tail)"
proof -
  have "encodeStd ! i2 \<noteq> CHR ''=''" "encodeStd ! i3 \<noteq> CHR ''=''"
    using encodeStd_not_pad[OF assms(3)] encodeStd_not_pad[OF assms(4)] by blast+
  then show ?thesis
    using assms by (simp add: position_encodeStd Let_def)
qed


lemma regroup4:
  "((n div 262144 * 64 + n div 4096 mod 64) * 64 + n div 64 mod 64) * 64 + n mod 64 = (n::nat)"
proof -
  have a: "n div 4096 = n div 64 div 64" by (simp add: div_mult2_eq[symmetric])
  have b: "n div 262144 = n div 4096 div 64" by (simp add: div_mult2_eq[symmetric])
  have "(n div 4096 div 64 * 64 + n div 4096 mod 64) = n div 4096" by simp
  then have "((n div 262144 * 64 + n div 4096 mod 64) * 64 + n div 64 mod 64) * 64 + n mod 64
      = (n div 4096 * 64 + n div 64 mod 64) * 64 + n mod 64" unfolding b by simp
  also have "\<dots> = n div 64 * 64 + n mod 64" unfolding a by simp
  also have "\<dots> = n" by simp
  finally show ?thesis .
qed

lemma split3:
  fixes x y z :: nat
  assumes "y < 256" "z < 256"
  shows "(x * 65536 + y * 256 + z) div 65536 = x"
    and "(x * 65536 + y * 256 + z) div 256 mod 256 = y"
    and "(x * 65536 + y * 256 + z) mod 256 = z"
proof -
  have r: "y * 256 + z < 65536" using assms by simp
  show "(x * 65536 + y * 256 + z) div 65536 = x"
    using r by (simp add: add.assoc)
  have "(x * 65536 + y * 256 + z) div 256 = x * 256 + y"
    using assms by simp
  then show "(x * 65536 + y * 256 + z) div 256 mod 256 = y"
    using assms by simp
  have "x * 65536 + y * 256 + z = (x * 256 + y) * 256 + z" by simp
  then show "(x * 65536 + y * 256 + z) mod 256 = z"
    using assms by (simp only: mod_mult_self3 mod_less)
qed

lemma bounds4:
  fixes n :: nat
  assumes "n < 16777216"
  shows "n div 262144 < 64" "n div 4096 mod 64 < 64" "n div 64 mod 64 < 64" "n mod 64 < 64"
  using assms by simp_all


lemma regroup3:
  "(n div 4096 * 64 + n div 64 mod 64) * 64 + n mod 64 = (n::nat)"
proof -
  have a: "n div 4096 = n div 64 div 64" by (simp add: div_mult2_eq[symmetric])
  show ?thesis unfolding a by simp
qed

lemma regroup2: "n div 64 * 64 + n mod 64 = (n::nat)"
  by simp

lemma pad2_facts:
  fixes x :: nat
  assumes "x < 256"
  shows "x * 16 div 64 < 64" "x * 16 mod 64 < 64" "x * 16 mod 64 mod 16 = 0"
    "x * 16 div 16 = x"
proof -
  show "x * 16 div 64 < 64" using assms by simp
  show "x * 16 mod 64 < 64" by simp
  have "x * 16 mod 64 mod 16 = x * 16 mod 16"
    by (rule mod_mod_cancel) simp
  then show "x * 16 mod 64 mod 16 = 0" by simp
  show "x * 16 div 16 = x" by simp
qed

lemma pad1_facts:
  fixes x y :: nat
  assumes "x < 256" "y < 256"
  defines "n \<equiv> (x * 256 + y) * 4"
  shows "n div 4096 < 64" "n div 64 mod 64 < 64" "n mod 64 < 64" "n mod 64 mod 4 = 0"
    "n div 4 div 256 = x" "n div 4 mod 256 = y"
proof -
  have m: "x * 256 + y < 65536" using assms by simp
  then have "n < 262144" unfolding n_def by simp
  then show "n div 4096 < 64" by simp
  show "n div 64 mod 64 < 64" "n mod 64 < 64" by simp_all
  have "n mod 64 mod 4 = n mod 4"
    by (rule mod_mod_cancel) simp
  then show "n mod 64 mod 4 = 0" unfolding n_def by simp
  have d: "n div 4 = x * 256 + y" unfolding n_def by simp
  show "n div 4 div 256 = x" unfolding d using assms by simp
  show "n div 4 mod 256 = y" unfolding d using assms by simp
qed

lemma DecodeString_EncodeToString: "DecodeString (EncodeToString s) = Some s"
proof (induction s rule: EncodeToString.induct)
  case 1
  show ?case by simp
next
  case (2 a)
  define x :: nat where "x = of_char a"
  have x: "x < 256" unfolding x_def by (rule of_char_bound)
  have e: "EncodeToString [a] =
      [encodeStd ! (x * 16 div 64), encodeStd ! (x * 16 mod 64), CHR ''='', CHR ''='']"
    by (simp only: EncodeToString.simps Let_def x_def)
  note f = pad2_facts[OF x]
  show ?case
    unfolding e decode_pad2[OF f(1,2,3)] regroup2 f(4) by (simp add: x_def byte_of_char)
next
  case (3 a b)
  define x :: nat where "x = of_char a"
  define y :: nat where "y = of_char b"
  have xy: "x < 256" "y < 256" unfolding x_def y_def by (rule of_char_bound)+
  define n where "n = (x * 256 + y) * 4"
  have e: "EncodeToString [a, b] =
      [encodeStd ! (n div 4096), encodeStd ! (n div 64 mod 64), encodeStd ! (n mod 64),
       CHR ''='']"
    by (simp only: EncodeToString.simps Let_def n_def x_def y_def)
  note f = pad1_facts[OF xy, folded n_def]
  show ?case
    unfolding e decode_pad1[OF f(1,2,3,4)] regroup3 f(5,6) by (simp add: x_def y_def byte_of_char)
next
  case (4 a b c rest)
  define x :: nat where "x = of_char a"
  define y :: nat where "y = of_char b"
  define z :: nat where "z = of_char c"
  have xyz: "x < 256" "y < 256" "z < 256" unfolding x_def y_def z_def by (rule of_char_bound)+
  define n where "n = x * 65536 + y * 256 + z"
  have e: "EncodeToString (a # b # c # rest) =
      encodeStd ! (n div 262144) # encodeStd ! (n div 4096 mod 64)
        # encodeStd ! (n div 64 mod 64) # encodeStd ! (n mod 64) # EncodeToString rest"
    by (simp only: EncodeToString.simps Let_def n_def x_def y_def z_def append.simps)
  have "n < 16777216" using xyz unfolding n_def by simp
  note bd = bounds4[OF this]
  note v = split3[OF xyz(2,3), of x, folded n_def]
  have ih: "DecodeString (EncodeToString rest) = Some rest"
    using "4.IH" by simp
  have "DecodeString (EncodeToString (a # b # c # rest)) = Some (byte x # byte y # byte z # rest)"
    unfolding e decode_full[OF bd ih] regroup4 v by (rule refl)
  then show ?case
    by (simp add: x_def y_def z_def byte_of_char)
qed

section \<open>The patch\<close>

lemma merge_patch_payload:
  "merge_patch (JObject [(''data'', JObject [(sKey, JString (EncodeToString token))])]) existing =
     Some (existing\<lparr>Data := (Data existing)(sKey \<mapsto> token)\<rparr>)"
  by (simp add: merge_patch_def DecodeString_EncodeToString)

lemma createOrUpdateSecret_found:
  assumes "k8s_Get E (ext w) namespace sName = (Inr existing, x)"
  shows "createOrUpdateSecret E namespace sName sKey token w =
     (case k8s_Patch E x namespace sName
             (JObject [(''data'', JObject [(sKey, JString (EncodeToString token))])]) of
        (r, x') \<Rightarrow>
          (map_option (\<lambda>patchErr. Errorf ''failed to patch secret '%s' in namespace '%s': %w''
                         [AStr sName, AStr namespace, AErr (Ext patchErr)]) r,
           \<lparr>ext = x',
            trace = trace w @
              [EvGet namespace sName,
               EvPatch namespace sName
                 (JObject [(''data'', JObject [(sKey, JString (EncodeToString token))])])]\<rparr>))"
  using assms
  by (auto simp add: createOrUpdateSecret_def api_Get_def api_Patch_def json_Marshal_def Let_def
      split: prod.splits option.splits)

lemma next_fault_cases:
  obtains "faults x = []" "next_fault x = (None, x)"
  | f fs where "faults x = f # fs" "next_fault x = (f, x\<lparr>faults := fs\<rparr>)"
  by (cases "faults x") (auto simp add: next_fault_def)

lemma objects_next_fault: "objects (snd (next_fault x)) = objects x"
  by (cases "faults x") (simp_all add: next_fault_def)

lemma srv_Get_existing:
  assumes "objects x (namespace, name) = Some existing"
  shows "srv_Get x namespace name =
     (case fst (next_fault x) of None \<Rightarrow> Inr existing | Some err \<Rightarrow> Inl err,
      snd (next_fault x))"
  using assms objects_next_fault[of x]
  by (cases "next_fault x") (auto simp add: srv_Get_def split: option.splits)

lemma srv_Create_existing:
  assumes "objects x (namespace, Name (ObjectMeta secret)) = Some existing"
  shows "fst (srv_Create x namespace secret) \<noteq> None
     \<and> objects (snd (srv_Create x namespace secret)) = objects x"
  using assms objects_next_fault[of x]
  by (cases "next_fault x") (auto simp add: srv_Create_def Let_def split: option.splits)

lemma srv_Patch_existing:
  assumes "objects x (namespace, name) = Some existing"
  shows "srv_Patch x namespace name
           (JObject [(''data'', JObject [(sKey, JString (EncodeToString token))])]) =
     (case fst (next_fault x) of
        Some err \<Rightarrow> (Some err, snd (next_fault x))
      | None \<Rightarrow>
          (None, (snd (next_fault x))
             \<lparr>objects := (objects x)((namespace, name) \<mapsto>
                  existing\<lparr>Data := (Data existing)(sKey \<mapsto> token)\<rparr>)\<rparr>))"
  using assms objects_next_fault[of x]
  by (cases "next_fault x") (auto simp add: srv_Patch_def merge_patch_payload split: option.splits)

text \<open>
  C9. On the reference API server, when the Secret exists, \<open>createOrUpdateSecret\<close> leaves
  every other Secret as it is, and in the Secret itself the metadata (its labels
  included), the type and every data key other than the secret key, whatever faults
  occur; when it succeeds, the secret key holds the token. With no fault it succeeds by
  one Get and one merge patch whose payload names the secret key only.
\<close>

theorem patch_changes_only_the_secret_key:
  assumes "objects (ext w) (namespace, sName) = Some existing"
    and "createOrUpdateSecret (reference vars files dec) namespace sName sKey token w = (r, w')"
  shows "(\<exists>secret'. objects (ext w') (namespace, sName) = Some secret'
            \<and> ObjectMeta secret' = ObjectMeta existing \<and> Type secret' = Type existing
            \<and> (\<forall>k. k \<noteq> sKey \<longrightarrow> Data secret' k = Data existing k)
            \<and> (r = None \<longrightarrow> Data secret' sKey = Some token))
       \<and> (\<forall>key. key \<noteq> (namespace, sName) \<longrightarrow> objects (ext w') key = objects (ext w) key)
       \<and> (faults (ext w) = [] \<longrightarrow>
            r = None \<and>
            trace w' = trace w @
              [EvGet namespace sName,
               EvPatch namespace sName
                 (JObject [(''data'', JObject [(sKey, JString (EncodeToString token))])])])"
proof -
  let ?R = "reference vars files dec"
  let ?x1 = "snd (next_fault (ext w))"
  have o1: "objects ?x1 = objects (ext w)" by (rule objects_next_fault)
  have get: "k8s_Get ?R (ext w) namespace sName =
      (case fst (next_fault (ext w)) of None \<Rightarrow> Inr existing | Some err \<Rightarrow> Inl err, ?x1)"
    using srv_Get_existing[OF assms(1)] by (simp add: reference_def)
  show ?thesis
  proof (cases "fst (next_fault (ext w))")
    case (Some err)
    have nf: "faults (ext w) \<noteq> []"
      using Some by (auto simp add: next_fault_def split: list.splits)
    have cr: "fst (srv_Create ?x1 namespace
                \<lparr>ObjectMeta = \<lparr>Name = sName, Namespace = namespace, Labels = Map.empty\<rparr>,
                 Type = SecretTypeOpaque, Data = [sKey \<mapsto> token], StringData = Map.empty\<rparr>) \<noteq> None"
      "objects (snd (srv_Create ?x1 namespace
                \<lparr>ObjectMeta = \<lparr>Name = sName, Namespace = namespace, Labels = Map.empty\<rparr>,
                 Type = SecretTypeOpaque, Data = [sKey \<mapsto> token], StringData = Map.empty\<rparr>))
         = objects (ext w)"
      using srv_Create_existing[of ?x1 namespace
          "\<lparr>ObjectMeta = \<lparr>Name = sName, Namespace = namespace, Labels = Map.empty\<rparr>,
            Type = SecretTypeOpaque, Data = [sKey \<mapsto> token], StringData = Map.empty\<rparr>" existing]
        assms(1) o1 by simp_all
    have "objects (ext w') = objects (ext w) \<and> r \<noteq> None"
      using assms(2) get Some cr o1
      by (auto simp add: createOrUpdateSecret_def api_Get_def api_Create_def reference_def
          Let_def split: prod.splits option.splits if_splits)
    then show ?thesis
      using assms(1) nf by auto
  next
    case None
    have get': "k8s_Get ?R (ext w) namespace sName = (Inr existing, ?x1)"
      using get None by simp
    have p: "k8s_Patch ?R ?x1 namespace sName
               (JObject [(''data'', JObject [(sKey, JString (EncodeToString token))])]) =
       (case fst (next_fault ?x1) of
          Some err \<Rightarrow> (Some err, snd (next_fault ?x1))
        | None \<Rightarrow>
            (None, (snd (next_fault ?x1))
               \<lparr>objects := (objects ?x1)((namespace, sName) \<mapsto>
                    existing\<lparr>Data := (Data existing)(sKey \<mapsto> token)\<rparr>)\<rparr>))"
      using srv_Patch_existing[of ?x1 namespace sName existing sKey token] assms(1) o1
      by (simp add: reference_def)
    have o2: "objects (snd (next_fault ?x1)) = objects (ext w)"
      using objects_next_fault[of ?x1] o1 by simp
    have e: "faults (ext w) = [] \<Longrightarrow> fst (next_fault ?x1) = None"
      by (simp add: next_fault_def)
    show ?thesis
      using assms createOrUpdateSecret_found[OF get', of sKey token] p o1 o2 e
      by (cases "fst (next_fault ?x1)") (auto split: prod.splits)
  qed
qed

theorem patch_changes_only_the_secret_key_witness:
  "objects (ext cluster_stored) (''a'', ''oidc-token-secret'') = Some stored
   \<and> fst (createOrUpdateSecret (provider reject) ''a'' ''oidc-token-secret'' ''token'' ''t2''
             cluster_stored) = None
   \<and> map_option (\<lambda>secret. (Data secret ''token'', Data secret ''ca.crt'',
                            Labels (ObjectMeta secret) ''team''))
        (objects (ext (snd (createOrUpdateSecret (provider reject) ''a'' ''oidc-token-secret''
                              ''token'' ''t2'' cluster_stored))) (''a'', ''oidc-token-secret'')) =
       Some (Some ''t2'', Some ''PEM'', Some ''payments'')"
proof -
  let ?run = "createOrUpdateSecret (provider reject) ''a'' ''oidc-token-secret'' ''token'' ''t2''
                cluster_stored"
  have o: "objects (ext cluster_stored) (''a'', ''oidc-token-secret'') = Some stored"
    by (simp add: cluster_stored_def quiet_def)
  have f: "faults (ext cluster_stored) = []"
    by (simp add: cluster_stored_def quiet_def)
  have run: "createOrUpdateSecret
      (reference [''CLIENT_SECRET_FILE'' \<mapsto> ''/etc/oidc/secret'', ''CLIENT_ID'' \<mapsto> ''fetcher'',
                  ''TOKEN_ENDPOINT_URL'' \<mapsto> ''https://idp/token'']
                 [''/etc/oidc/secret'' \<mapsto> '' s3cret ''] reject)
      ''a'' ''oidc-token-secret'' ''token'' ''t2'' cluster_stored = (fst ?run, snd ?run)"
    by (simp add: provider_def)
  note t = patch_changes_only_the_secret_key[OF o run]
  have r: "fst ?run = None"
    using t[THEN conjunct2, THEN conjunct2] f by simp
  from t[THEN conjunct1] obtain secret' where
    s0: "objects (ext (snd ?run)) (''a'', ''oidc-token-secret'') = Some secret'
         \<and> ObjectMeta secret' = ObjectMeta stored \<and> Type secret' = Type stored
         \<and> (\<forall>k. k \<noteq> ''token'' \<longrightarrow> Data secret' k = Data stored k)
         \<and> (fst ?run = None \<longrightarrow> Data secret' ''token'' = Some ''t2'')" ..
  have s: "objects (ext (snd ?run)) (''a'', ''oidc-token-secret'') = Some secret'"
      "ObjectMeta secret' = ObjectMeta stored"
      "\<forall>k. k \<noteq> ''token'' \<longrightarrow> Data secret' k = Data stored k"
      "fst ?run = None \<longrightarrow> Data secret' ''token'' = Some ''t2''"
    using s0 by simp_all
  have "Data secret' ''ca.crt'' = Some ''PEM''"
    using s(3) by (simp add: stored_def)
  moreover have "Labels (ObjectMeta secret') ''team'' = Some ''payments''"
    using s(2) by (simp add: stored_def)
  ultimately show ?thesis
    using o r s(1,4) by simp
qed

section \<open>Reconciling twice\<close>








text \<open>
  On the reference API server, which folds \<open>StringData\<close> into \<open>Data\<close> on every write and
  returns none, the Secret that \<open>manageNamespaceSecret\<close> has created is read back without
  \<open>StringData\<close>: a second call with the same, non-empty token updates it again.
\<close>

lemma manageNamespaceSecret_twice_on_reference:
  assumes "objects (ext w) (namespace, secretName) = None" and "faults (ext w) = []"
    and "token \<noteq> []"
  shows "writes (trace (snd (manageNamespaceSecret (reference vars files dec) token namespace
                  (snd (manageNamespaceSecret (reference vars files dec) token namespace w))))) =
         writes (trace w) @
           [EvCreate namespace
              \<lparr>ObjectMeta =
                 \<lparr>Name = secretName, Namespace = [],
                  Labels = [''app.kubernetes.io/managed-by'' \<mapsto> appName,
                            ''app.kubernetes.io/created-by'' \<mapsto> appName]\<rparr>,
               Type = SecretTypeOpaque, Data = Map.empty, StringData = [''token'' \<mapsto> token]\<rparr>,
            EvUpdate namespace
              \<lparr>ObjectMeta =
                 \<lparr>Name = secretName, Namespace = [],
                  Labels = [''app.kubernetes.io/managed-by'' \<mapsto> appName,
                            ''app.kubernetes.io/created-by'' \<mapsto> appName]\<rparr>,
               Type = SecretTypeOpaque, Data = Map.empty, StringData = [''token'' \<mapsto> token]\<rparr>]"
  using assms
  by (simp add: manageNamespaceSecret_def api_Get_def api_Create_def api_Update_def
      reference_def srv_Get_def srv_Create_def srv_Update_def next_fault_def not_found_def
      admit_def index_def writes_def Let_def)

text \<open>
  The cluster-wide program compares the token with \<open>StringData\<close> of the Secret read back.
  On the reference API server, which returns no \<open>StringData\<close>, every call of
  \<open>manageNamespaceSecret\<close> with a non-empty token on an existing Secret updates it, also
  when its stored value is the token.
\<close>

lemma manageNamespaceSecret_updates_on_reference:
  assumes "objects (ext w) (namespace, secretName) = Some existing" and "faults (ext w) = []"
    and "StringData existing = Map.empty" and "token \<noteq> []"
  shows "manageNamespaceSecret (reference vars files dec) token namespace w =
     (None,
      \<lparr>ext = (ext w)\<lparr>objects := (objects (ext w))((namespace, secretName) \<mapsto>
                \<lparr>ObjectMeta =
                   \<lparr>Name = secretName, Namespace = namespace,
                    Labels = [''app.kubernetes.io/managed-by'' \<mapsto> appName,
                              ''app.kubernetes.io/created-by'' \<mapsto> appName]\<rparr>,
                 Type = SecretTypeOpaque, Data = [''token'' \<mapsto> token],
                 StringData = Map.empty\<rparr>)\<rparr>,
       trace = trace w @
         [EvGet namespace secretName,
          EvUpdate namespace
            \<lparr>ObjectMeta =
               \<lparr>Name = secretName, Namespace = [],
                Labels = [''app.kubernetes.io/managed-by'' \<mapsto> appName,
                          ''app.kubernetes.io/created-by'' \<mapsto> appName]\<rparr>,
             Type = SecretTypeOpaque, Data = Map.empty, StringData = [''token'' \<mapsto> token]\<rparr>]\<rparr>)"
  using assms
  by (simp add: manageNamespaceSecret_def api_Get_def api_Update_def reference_def srv_Get_def
      srv_Update_def next_fault_def admit_def index_def Let_def)

end
